theory Spec2Isabelle
  imports Main
begin

section \<open>Values, fields and lifecycle states\<close>

text \<open>
  Python values that an Action Plan field can hold: \<open>None\<close>, an integer, a string, a
  dictionary (the flexible \<open>global_efficacy\<close> payload) and a related object (an Audit, a
  Strategy, an Action or an EfficacyIndicator), the last given by its class name and its
  fields.
\<close>

datatype val =
    NoneV
  | IntV int
  | StrV string
  | DictV "(string \<times> val) list"
  | ObjV string "(string \<times> val) list"

text \<open>The keys of \<open>ActionPlan.fields\<close>, in the order of the source.\<close>

datatype field =
    F_id
  | F_uuid
  | F_audit_id
  | F_strategy_id
  | F_first_action_id
  | F_state
  | F_global_efficacy
  | F_audit
  | F_strategy

definition ActionPlan_fields :: "field list" where
  "ActionPlan_fields = [F_id, F_uuid, F_audit_id, F_strategy_id, F_first_action_id, F_state,
     F_global_efficacy, F_audit, F_strategy]"

text \<open>The classes of the related objects named by \<open>ActionPlan.object_fields\<close>.\<close>

datatype related_cls = Audit | Strategy

definition object_fields :: "(field \<times> related_cls \<times> field) list" where
  "object_fields = [(F_audit, Audit, F_audit_id), (F_strategy, Strategy, F_strategy_id)]"

text \<open>The constants of class \<open>State\<close>.\<close>

definition RECOMMENDED :: string where "RECOMMENDED = ''RECOMMENDED''"
definition PENDING :: string where "PENDING = ''PENDING''"
definition ONGOING :: string where "ONGOING = ''ONGOING''"
definition FAILED :: string where "FAILED = ''FAILED''"
definition SUCCEEDED :: string where "SUCCEEDED = ''SUCCEEDED''"
definition DELETED :: string where "DELETED = ''DELETED''"
definition CANCELLED :: string where "CANCELLED = ''CANCELLED''"

definition State_values :: "string list" where
  "State_values = [RECOMMENDED, PENDING, ONGOING, FAILED, SUCCEEDED, DELETED, CANCELLED]"

section \<open>Errors\<close>

text \<open>
  \<open>InvalidIdentity\<close> is raised by \<open>ActionPlan.get\<close> and carries the offending key.
  \<open>NotFound\<close> and \<open>StorageFailure\<close> are what the collaborators raise. \<open>AttrNotSet\<close>
  stands for reading an attribute of an object on which it was never set.
\<close>

datatype error =
    InvalidIdentity val
  | NotFound
  | StorageFailure
  | AttrNotSet field

section \<open>The change-tracked object\<close>

type_synonym ctx = string

text \<open>
  An \<open>ActionPlan\<close> instance: its request context, the attributes that are set, and the
  names of the fields changed since the last reset.
\<close>

record obj =
  obj_context :: ctx
  attrs :: "field \<rightharpoonup> val"
  changed :: "field set"

text \<open>A database row: every column of the model instance can be read.\<close>

type_synonym row = "field \<Rightarrow> val"

text \<open>
  Modelled from the spec: the base classes \<open>WatcherObject\<close>, \<open>WatcherPersistentObject\<close>
  and \<open>WatcherObjectDictCompat\<close> (module \<open>watcher.objects.base\<close>) are not among the
  sources. The constructor \<open>cls(context)\<close> gives an object with no attribute set and an
  empty change set; assigning a field records it as changed; \<open>obj_get_changes\<close> maps
  each changed field to its current value, and leaves every other field out;
  \<open>obj_reset_changes\<close> empties the change set; \<open>obj_refresh\<close> overlays the fields of a
  loaded object onto this one and discards the local changes.
\<close>

definition new_obj :: "ctx \<Rightarrow> obj" where
  "new_obj c = \<lparr>obj_context = c, attrs = Map.empty, changed = {}\<rparr>"

definition setattr :: "field \<Rightarrow> val \<Rightarrow> obj \<Rightarrow> obj" where
  "setattr f v ob = ob\<lparr>attrs := (attrs ob)(f \<mapsto> v), changed := insert f (changed ob)\<rparr>"

definition obj_get_changes :: "obj \<Rightarrow> (field \<rightharpoonup> val)" where
  "obj_get_changes ob = (\<lambda>f. if f \<in> changed ob then attrs ob f else None)"

definition obj_reset_changes :: "obj \<Rightarrow> obj" where
  "obj_reset_changes ob = ob\<lparr>changed := {}\<rparr>"

definition obj_refresh :: "obj \<Rightarrow> obj \<Rightarrow> obj" where
  "obj_refresh ob loaded = ob\<lparr>attrs := attrs ob ++ attrs loaded, changed := {}\<rparr>"

section \<open>Collaborators\<close>

text \<open>
  The storage API (\<open>watcher.db.api\<close>), the helpers of \<open>watcher.common.utils\<close> and the
  classes of the related entities are imported by the source and not part of it. They are
  taken as parameters: each call reads and updates an abstract store \<open>'s\<close> and either
  returns a value or raises. The accessors of the related entities are
  \<open>Action.list\<close>, \<open>EfficacyIndicator.list\<close> (both filtered by \<open>action_plan_uuid\<close>), the
  \<open>soft_delete\<close> and \<open>destroy\<close> methods of the objects they return, and the fetch of an
  Audit or a Strategy by its id.
\<close>

type_synonym ('s, 'a) api = "'s \<Rightarrow> (error + 'a) \<times> 's"

record 's collab =
  is_int_like :: "val \<Rightarrow> bool"
  is_uuid_like :: "val \<Rightarrow> bool"
  get_action_plan_by_id :: "ctx \<Rightarrow> val \<Rightarrow> bool \<Rightarrow> ('s, row) api"
  get_action_plan_by_uuid :: "ctx \<Rightarrow> val \<Rightarrow> bool \<Rightarrow> ('s, row) api"
  create_action_plan :: "(field \<rightharpoonup> val) \<Rightarrow> ('s, row) api"
  update_action_plan :: "val \<Rightarrow> (field \<rightharpoonup> val) \<Rightarrow> ('s, row) api"
  soft_delete_action_plan :: "val \<Rightarrow> ('s, row) api"
  destroy_action_plan :: "val \<Rightarrow> ('s, unit) api"
  Action_list :: "ctx \<Rightarrow> val \<Rightarrow> ('s, val list) api"
  Action_soft_delete :: "val \<Rightarrow> ('s, unit) api"
  EfficacyIndicator_list :: "ctx \<Rightarrow> val \<Rightarrow> ('s, val list) api"
  EfficacyIndicator_soft_delete :: "val \<Rightarrow> ('s, unit) api"
  EfficacyIndicator_destroy :: "val \<Rightarrow> ('s, unit) api"
  related_get :: "related_cls \<Rightarrow> ctx \<Rightarrow> val \<Rightarrow> ('s, val) api"

text \<open>One event per call of a collaborator, with the arguments of the call.\<close>

datatype event =
    Ev_get_action_plan_by_id ctx val bool
  | Ev_get_action_plan_by_uuid ctx val bool
  | Ev_create_action_plan "field \<rightharpoonup> val"
  | Ev_update_action_plan val "field \<rightharpoonup> val"
  | Ev_soft_delete_action_plan val
  | Ev_destroy_action_plan val
  | Ev_Action_list ctx val
  | Ev_Action_soft_delete val
  | Ev_EfficacyIndicator_list ctx val
  | Ev_EfficacyIndicator_soft_delete val
  | Ev_EfficacyIndicator_destroy val
  | Ev_related_get related_cls ctx val

section \<open>Running a method\<close>

text \<open>
  The state of a run: \<open>this\<close> is the object the running code mutates in place (\<open>self\<close>
  in an instance method), \<open>store\<close> is the state of the collaborators, and \<open>trace\<close> lists
  the collaborator calls made so far, oldest first. A step returns a value or raises; a
  raise keeps the state as it was at that moment.
\<close>

record 's world =
  this :: obj
  store :: 's
  trace :: "event list"

type_synonym ('s, 'a) run = "'s world \<Rightarrow> (error + 'a) \<times> 's world"

definition ret :: "'a \<Rightarrow> ('s, 'a) run" where
  "ret x w = (Inr x, w)"

definition raise :: "error \<Rightarrow> ('s, 'a) run" where
  "raise e w = (Inl e, w)"

definition bnd :: "('s, 'a) run \<Rightarrow> ('a \<Rightarrow> ('s, 'b) run) \<Rightarrow> ('s, 'b) run" where
  "bnd m f w = (case m w of (Inl e, w') \<Rightarrow> (Inl e, w') | (Inr x, w') \<Rightarrow> f x w')"

definition call :: "event \<Rightarrow> ('s, 'a) api \<Rightarrow> ('s, 'a) run" where
  "call ev f w =
     (case f (store w) of (r, s') \<Rightarrow> (r, w\<lparr>store := s', trace := trace w @ [ev]\<rparr>))"

fun for_each :: "'a list \<Rightarrow> ('a \<Rightarrow> ('s, unit) run) \<Rightarrow> ('s, unit) run" where
  "for_each [] f = ret ()"
| "for_each (x # xs) f = bnd (f x) (\<lambda>_. for_each xs f)"

text \<open>Reading \<open>self._context\<close>, reading and assigning a field of \<open>self\<close>.\<close>

definition self_context :: "('s, ctx) run" where
  "self_context w = (Inr (obj_context (this w)), w)"

definition self_get :: "field \<Rightarrow> ('s, val) run" where
  "self_get f w =
     (case attrs (this w) f of None \<Rightarrow> (Inl (AttrNotSet f), w) | Some v \<Rightarrow> (Inr v, w))"

definition self_set :: "field \<Rightarrow> val \<Rightarrow> ('s, unit) run" where
  "self_set f v w = (Inr (), w\<lparr>this := setattr f v (this w)\<rparr>)"

definition self_obj_get_changes :: "('s, field \<rightharpoonup> val) run" where
  "self_obj_get_changes w = (Inr (obj_get_changes (this w)), w)"

definition self_obj_reset_changes :: "('s, unit) run" where
  "self_obj_reset_changes w = (Inr (), w\<lparr>this := obj_reset_changes (this w)\<rparr>)"

definition self_obj_refresh :: "obj \<Rightarrow> ('s, unit) run" where
  "self_obj_refresh loaded w = (Inr (), w\<lparr>this := obj_refresh (this w) loaded\<rparr>)"

definition self_alias :: "('s, obj) run" where
  "self_alias w = (Inr (this w), w)"

text \<open>
  Running a step on another object than \<open>self\<close> (a fresh \<open>cls(context)\<close>): the step
  mutates that object, and \<open>self\<close> is untouched.
\<close>

definition on_obj :: "obj \<Rightarrow> ('s, 'a) run \<Rightarrow> ('s, 'a) run" where
  "on_obj ob m w = (case m (w\<lparr>this := ob\<rparr>) of (r, w') \<Rightarrow> (r, w'\<lparr>this := this w\<rparr>))"

section \<open>Hydration\<close>

text \<open>
  Modelled from the spec: \<open>_from_db_object\<close> is inherited from
  \<open>WatcherPersistentObject\<close>, which is not among the sources. It copies every field that
  is not a relationship field from the row; with \<open>eager\<close> it resolves each relationship
  field, in the order of \<open>object_fields\<close>, by one fetch of the related entity by the
  foreign key, and a failure of that fetch propagates; without \<open>eager\<close> the relationship
  fields are left as they are (unset on a fresh object); then the change set is reset and
  the object is returned. The object worked on is \<open>this\<close>.
\<close>

definition is_object_field :: "field \<Rightarrow> bool" where
  "is_object_field f = (f \<in> set (map fst object_fields))"

definition load_related :: "'s collab \<Rightarrow> field \<times> related_cls \<times> field \<Rightarrow> ('s, unit) run" where
  "load_related env = (\<lambda>(obj_field, related_obj_cls, rel_id).
     bnd self_context (\<lambda>context.
     bnd (self_get rel_id) (\<lambda>key.
     bnd (call (Ev_related_get related_obj_cls context key)
               (related_get env related_obj_cls context key)) (\<lambda>related.
     self_set obj_field related))))"

definition from_db_object :: "'s collab \<Rightarrow> row \<Rightarrow> bool \<Rightarrow> ('s, obj) run" where
  "from_db_object env db_object eager =
     bnd (for_each (filter (\<lambda>f. \<not> is_object_field f) ActionPlan_fields)
            (\<lambda>f. self_set f (db_object f))) (\<lambda>_.
     bnd (if eager then for_each object_fields (load_related env) else ret ()) (\<lambda>_.
     bnd self_obj_reset_changes (\<lambda>_.
     self_alias)))"

section \<open>The methods of ActionPlan\<close>

text \<open>
  Each definition follows the method of the same name statement by statement. The
  \<open>eager\<close> argument, which defaults to \<open>False\<close> in the source, is always passed.
\<close>

definition get_by_id :: "'s collab \<Rightarrow> ctx \<Rightarrow> val \<Rightarrow> bool \<Rightarrow> ('s, obj) run" where
  "get_by_id env context action_plan_id eager =
     bnd (call (Ev_get_action_plan_by_id context action_plan_id eager)
               (get_action_plan_by_id env context action_plan_id eager)) (\<lambda>db_action_plan.
     on_obj (new_obj context) (from_db_object env db_action_plan eager))"

definition get_by_uuid :: "'s collab \<Rightarrow> ctx \<Rightarrow> val \<Rightarrow> bool \<Rightarrow> ('s, obj) run" where
  "get_by_uuid env context uuid eager =
     bnd (call (Ev_get_action_plan_by_uuid context uuid eager)
               (get_action_plan_by_uuid env context uuid eager)) (\<lambda>db_action_plan.
     on_obj (new_obj context) (from_db_object env db_action_plan eager))"

definition get :: "'s collab \<Rightarrow> ctx \<Rightarrow> val \<Rightarrow> bool \<Rightarrow> ('s, obj) run" where
  "get env context action_plan_id eager =
     (if is_int_like env action_plan_id then get_by_id env context action_plan_id eager
      else if is_uuid_like env action_plan_id then get_by_uuid env context action_plan_id eager
      else raise (InvalidIdentity action_plan_id))"

definition create :: "'s collab \<Rightarrow> ('s, unit) run" where
  "create env =
     bnd self_obj_get_changes (\<lambda>values.
     bnd (call (Ev_create_action_plan values) (create_action_plan env values)) (\<lambda>db_action_plan.
     bnd (from_db_object env db_action_plan True) (\<lambda>_.
     ret ())))"

definition destroy :: "'s collab \<Rightarrow> ('s, unit) run" where
  "destroy env =
     bnd self_context (\<lambda>context.
     bnd (self_get F_uuid) (\<lambda>uuid.
     bnd (call (Ev_EfficacyIndicator_list context uuid)
               (EfficacyIndicator_list env context uuid)) (\<lambda>related_efficacy_indicators.
     bnd (for_each related_efficacy_indicators (\<lambda>related_efficacy_indicator.
            call (Ev_EfficacyIndicator_destroy related_efficacy_indicator)
                 (EfficacyIndicator_destroy env related_efficacy_indicator))) (\<lambda>_.
     bnd (self_get F_uuid) (\<lambda>uuid.
     bnd (call (Ev_destroy_action_plan uuid) (destroy_action_plan env uuid)) (\<lambda>_.
     self_obj_reset_changes))))))"

definition save :: "'s collab \<Rightarrow> ('s, unit) run" where
  "save env =
     bnd self_obj_get_changes (\<lambda>updates.
     bnd (self_get F_uuid) (\<lambda>uuid.
     bnd (call (Ev_update_action_plan uuid updates)
               (update_action_plan env uuid updates)) (\<lambda>db_obj.
     bnd (from_db_object env db_obj False) (\<lambda>obj.
     bnd (self_obj_refresh obj) (\<lambda>_.
     self_obj_reset_changes)))))"

definition refresh :: "'s collab \<Rightarrow> bool \<Rightarrow> ('s, unit) run" where
  "refresh env eager =
     bnd self_context (\<lambda>context.
     bnd (self_get F_uuid) (\<lambda>uuid.
     bnd (get_by_uuid env context uuid eager) (\<lambda>current.
     self_obj_refresh current)))"

definition soft_delete :: "'s collab \<Rightarrow> ('s, unit) run" where
  "soft_delete env =
     bnd self_context (\<lambda>context.
     bnd (self_get F_uuid) (\<lambda>uuid.
     bnd (call (Ev_Action_list context uuid) (Action_list env context uuid)) (\<lambda>related_actions.
     bnd (for_each related_actions (\<lambda>related_action.
            call (Ev_Action_soft_delete related_action)
                 (Action_soft_delete env related_action))) (\<lambda>_.
     bnd self_context (\<lambda>context.
     bnd (self_get F_uuid) (\<lambda>uuid.
     bnd (call (Ev_EfficacyIndicator_list context uuid)
               (EfficacyIndicator_list env context uuid)) (\<lambda>related_efficacy_indicators.
     bnd (for_each related_efficacy_indicators (\<lambda>related_efficacy_indicator.
            call (Ev_EfficacyIndicator_soft_delete related_efficacy_indicator)
                 (EfficacyIndicator_soft_delete env related_efficacy_indicator))) (\<lambda>_.
     bnd (self_set F_state (StrV DELETED)) (\<lambda>_.
     bnd (save env) (\<lambda>_.
     bnd (self_get F_uuid) (\<lambda>uuid.
     bnd (call (Ev_soft_delete_action_plan uuid) (soft_delete_action_plan env uuid)) (\<lambda>db_obj.
     bnd self_context (\<lambda>context.
     bnd (on_obj (new_obj context) (from_db_object env db_obj False)) (\<lambda>obj.
     self_obj_refresh obj))))))))))))))"

section \<open>Notions used to state the properties\<close>

text \<open>
  The object after \<open>_from_db_object\<close> has assigned the columns of a row, and the object a
  successful eager hydration returns.
\<close>

definition copy_row :: "row \<Rightarrow> obj \<Rightarrow> obj" where
  "copy_row r ob =
     ob\<lparr>attrs := (\<lambda>f. if is_object_field f then attrs ob f else Some (r f)),
        changed := changed ob \<union> {f. \<not> is_object_field f}\<rparr>"

definition eager_row :: "row \<Rightarrow> val \<Rightarrow> val \<Rightarrow> obj \<Rightarrow> obj" where
  "eager_row r a st ob =
     obj_reset_changes (setattr F_strategy st (setattr F_audit a (copy_row r ob)))"

text \<open>
  A loop of collaborator calls, seen from the store: the outcome, the store it leaves, and
  the elements it has called (all of them unless a call raised).
\<close>

fun api_each :: "('a \<Rightarrow> ('s, unit) api) \<Rightarrow> 'a list \<Rightarrow> 's \<Rightarrow> (error + unit) \<times> 's \<times> 'a list" where
  "api_each f [] s = (Inr (), s, [])"
| "api_each f (x # xs) s =
     (case f x s of
        (Inl e, s') \<Rightarrow> (Inl e, s', [x])
      | (Inr _, s') \<Rightarrow> (case api_each f xs s' of (r, s'', called) \<Rightarrow> (r, s'', x # called)))"

text \<open>The events since a given trace, and the calls that \<open>destroy\<close> may make.\<close>

definition events_since :: "'s world \<Rightarrow> 's world \<Rightarrow> event list" where
  "events_since w w' = drop (length (trace w)) (trace w')"

fun destroy_event :: "event \<Rightarrow> bool" where
  "destroy_event (Ev_EfficacyIndicator_list c u) = True"
| "destroy_event (Ev_EfficacyIndicator_destroy x) = True"
| "destroy_event (Ev_destroy_action_plan u) = True"
| "destroy_event ev = False"

text \<open>
  The calls of \<open>soft_delete\<close> on the row of the plan and on its dependents, and the traces
  in which no call on a dependent comes after a call on the row of the plan.
\<close>

fun plan_event :: "event \<Rightarrow> bool" where
  "plan_event (Ev_update_action_plan u d) = True"
| "plan_event (Ev_soft_delete_action_plan u) = True"
| "plan_event ev = False"

fun dependent_event :: "event \<Rightarrow> bool" where
  "dependent_event (Ev_Action_soft_delete x) = True"
| "dependent_event (Ev_EfficacyIndicator_soft_delete x) = True"
| "dependent_event ev = False"

fun dependents_first :: "event list \<Rightarrow> bool" where
  "dependents_first [] = True"
| "dependents_first (ev # evs) =
     ((if plan_event ev then list_all (\<lambda>e. \<not> dependent_event e) evs else True)
      \<and> dependents_first evs)"

text \<open>
  A transient object: \<open>cls(context)\<close> followed by assignments of fields, none of them
  persisted yet.
\<close>

definition transient :: "ctx \<Rightarrow> (field \<times> val) list \<Rightarrow> obj" where
  "transient c kvs = foldl (\<lambda>ob (f, v). setattr f v ob) (new_obj c) kvs"

section \<open>A reference collaborator\<close>

text \<open>
  Modelled from the spec: \<open>utils.is_int_like\<close> and \<open>utils.is_uuid_like\<close> (module
  \<open>watcher.common.utils\<close>) are not among the sources, and the spec only names the two
  shapes: an integer-like key is a valid numeric string, a UUID-like key a valid UUID
  string. Here an integer, or a string that is a decimal numeral in canonical form (an
  optional minus sign, no leading zero, no \<open>-0\<close>), is integer-like; a string of 32
  hexadecimal digits, hyphens between them ignored, is UUID-like.
\<close>

definition is_digit :: "char \<Rightarrow> bool" where
  "is_digit ch = (ch \<in> set ''0123456789'')"

definition is_hex :: "char \<Rightarrow> bool" where
  "is_hex ch = (ch \<in> set ''0123456789abcdefABCDEF'')"

definition canonical_numeral :: "string \<Rightarrow> bool" where
  "canonical_numeral s =
     (case s of
        [] \<Rightarrow> False
      | ch # cs \<Rightarrow>
          if ch = CHR ''-''
          then (case cs of [] \<Rightarrow> False | d # ds \<Rightarrow> d \<noteq> CHR ''0'' \<and> list_all is_digit cs)
          else if ch = CHR ''0'' then cs = [] else list_all is_digit s)"

fun utils_is_int_like :: "val \<Rightarrow> bool" where
  "utils_is_int_like (IntV i) = True"
| "utils_is_int_like (StrV s) = canonical_numeral s"
| "utils_is_int_like v = False"

fun utils_is_uuid_like :: "val \<Rightarrow> bool" where
  "utils_is_uuid_like (StrV s) =
     (let h = filter (\<lambda>ch. ch \<noteq> CHR ''-'') s in length h = 32 \<and> list_all is_hex h)"
| "utils_is_uuid_like v = False"

text \<open>
  Modelled from the spec: the storage API and the accessors of the related entities are
  not among the sources. The spec gives their interface: fetch by id and by uuid, create
  returning the row, update of a row by uuid with a field delta returning the row,
  soft-delete by uuid returning the row, destroy by uuid, a not-found condition reported as
  such, and the same contract for each related entity. This is an in-memory storage with
  that interface: a table of Action Plan rows, each with its soft-deleted mark, and a table
  of Actions and one of EfficacyIndicators, each entry with its uuid, the uuid of its
  Action Plan and its soft-deleted mark. Lookups skip soft-deleted entries. An update
  writes the columns of the delta and keeps the others. An Audit and a Strategy exist for
  every positive integer id.
\<close>

record mem =
  action_plans :: "(bool \<times> (field \<times> val) list) list"
  actions :: "(val \<times> val \<times> bool) list"
  efficacy_indicators :: "(val \<times> val \<times> bool) list"

definition row_of :: "(field \<times> val) list \<Rightarrow> row" where
  "row_of cols f = (case map_of cols f of Some v \<Rightarrow> v | None \<Rightarrow> NoneV)"

definition live :: "field \<Rightarrow> val \<Rightarrow> bool \<times> (field \<times> val) list \<Rightarrow> bool" where
  "live f key p = (\<not> fst p \<and> map_of (snd p) f = Some key)"

definition mem_get_action_plan :: "field \<Rightarrow> ctx \<Rightarrow> val \<Rightarrow> bool \<Rightarrow> (mem, row) api" where
  "mem_get_action_plan f c key eager s =
     (case find (live f key) (action_plans s) of
        None \<Rightarrow> (Inl NotFound, s)
      | Some p \<Rightarrow> (Inr (row_of (snd p)), s))"

text \<open>A lookup by id compares numbers: a numeral given as a string is read first.\<close>

definition digit_of :: "char \<Rightarrow> int" where
  "digit_of ch =
     (case map_of (zip ''0123456789'' [0, 1, 2, 3, 4, 5, 6, 7, 8, 9]) ch of
        Some d \<Rightarrow> d
      | None \<Rightarrow> 0)"

definition numeral_of :: "string \<Rightarrow> int" where
  "numeral_of s = foldl (\<lambda>n ch. 10 * n + digit_of ch) 0 s"

fun id_key :: "val \<Rightarrow> val" where
  "id_key (StrV s) =
     (if canonical_numeral s
      then IntV (if hd s = CHR ''-'' then - numeral_of (tl s) else numeral_of s)
      else StrV s)"
| "id_key v = v"

definition mem_create_action_plan :: "(field \<rightharpoonup> val) \<Rightarrow> (mem, row) api" where
  "mem_create_action_plan values s =
     (let cols = map (\<lambda>f. (f, if f = F_id then IntV (int (length (action_plans s)) + 1)
                              else case values f of Some v \<Rightarrow> v | None \<Rightarrow> NoneV))
                   (filter (\<lambda>f. \<not> is_object_field f) ActionPlan_fields)
      in if find (live F_uuid (row_of cols F_uuid)) (action_plans s) = None
         then (Inr (row_of cols), s\<lparr>action_plans := action_plans s @ [(False, cols)]\<rparr>)
         else (Inl StorageFailure, s))"

definition mem_update_action_plan :: "val \<Rightarrow> (field \<rightharpoonup> val) \<Rightarrow> (mem, row) api" where
  "mem_update_action_plan uuid delta s =
     (case find (live F_uuid uuid) (action_plans s) of
        None \<Rightarrow> (Inl NotFound, s)
      | Some p \<Rightarrow>
          (let cols = map (\<lambda>f. (f, case delta f of Some v' \<Rightarrow> v'
                                     | None \<Rightarrow> row_of (snd p) f))
                        (filter (\<lambda>f. \<not> is_object_field f) ActionPlan_fields)
           in (Inr (row_of cols),
               s\<lparr>action_plans :=
                    map (\<lambda>q. if live F_uuid uuid q then (False, cols) else q) (action_plans s)\<rparr>)))"

definition mem_soft_delete_action_plan :: "val \<Rightarrow> (mem, row) api" where
  "mem_soft_delete_action_plan uuid s =
     (case find (live F_uuid uuid) (action_plans s) of
        None \<Rightarrow> (Inl NotFound, s)
      | Some p \<Rightarrow>
          (Inr (row_of (snd p)),
           s\<lparr>action_plans :=
                map (\<lambda>q. if live F_uuid uuid q then (True, snd q) else q) (action_plans s)\<rparr>))"

definition mem_destroy_action_plan :: "val \<Rightarrow> (mem, unit) api" where
  "mem_destroy_action_plan uuid s =
     (case find (live F_uuid uuid) (action_plans s) of
        None \<Rightarrow> (Inl NotFound, s)
      | Some p \<Rightarrow>
          (Inr (), s\<lparr>action_plans := filter (\<lambda>q. \<not> live F_uuid uuid q) (action_plans s)\<rparr>))"

text \<open>The object an accessor returns for an entry, and the uuid such an object carries.\<close>

definition entry_obj :: "string \<Rightarrow> val \<times> val \<times> bool \<Rightarrow> val" where
  "entry_obj cls = (\<lambda>(uuid, action_plan_uuid, deleted).
     ObjV cls [(''uuid'', uuid), (''action_plan_uuid'', action_plan_uuid)])"

fun entry_uuid :: "val \<Rightarrow> val option" where
  "entry_uuid (ObjV cls kvs) = map_of kvs ''uuid''"
| "entry_uuid v = None"

definition entries_list :: "string \<Rightarrow> val \<Rightarrow> (val \<times> val \<times> bool) list \<Rightarrow> val list" where
  "entries_list cls action_plan_uuid es =
     map (entry_obj cls) (filter (\<lambda>(u, p, d). p = action_plan_uuid \<and> \<not> d) es)"

definition entry_live :: "val \<Rightarrow> val \<times> val \<times> bool \<Rightarrow> bool" where
  "entry_live uuid = (\<lambda>(u, p, d). u = uuid \<and> \<not> d)"

definition entries_soft_delete ::
  "val \<Rightarrow> (val \<times> val \<times> bool) list \<Rightarrow> (val \<times> val \<times> bool) list option" where
  "entries_soft_delete ob es =
     (case entry_uuid ob of
        None \<Rightarrow> None
      | Some uuid \<Rightarrow>
          if find (entry_live uuid) es = None then None
          else Some (map (\<lambda>(u, p, d). if u = uuid then (u, p, True) else (u, p, d)) es))"

definition entries_destroy ::
  "val \<Rightarrow> (val \<times> val \<times> bool) list \<Rightarrow> (val \<times> val \<times> bool) list option" where
  "entries_destroy ob es =
     (case entry_uuid ob of
        None \<Rightarrow> None
      | Some uuid \<Rightarrow>
          if find (entry_live uuid) es = None then None
          else Some (filter (\<lambda>(u, p, d). u \<noteq> uuid) es))"

definition mem_Action_list :: "ctx \<Rightarrow> val \<Rightarrow> (mem, val list) api" where
  "mem_Action_list c action_plan_uuid s =
     (Inr (entries_list ''Action'' action_plan_uuid (actions s)), s)"

definition mem_Action_soft_delete :: "val \<Rightarrow> (mem, unit) api" where
  "mem_Action_soft_delete ob s =
     (case entries_soft_delete ob (actions s) of
        None \<Rightarrow> (Inl NotFound, s)
      | Some es \<Rightarrow> (Inr (), s\<lparr>actions := es\<rparr>))"

definition mem_EfficacyIndicator_list :: "ctx \<Rightarrow> val \<Rightarrow> (mem, val list) api" where
  "mem_EfficacyIndicator_list c action_plan_uuid s =
     (Inr (entries_list ''EfficacyIndicator'' action_plan_uuid (efficacy_indicators s)), s)"

definition mem_EfficacyIndicator_soft_delete :: "val \<Rightarrow> (mem, unit) api" where
  "mem_EfficacyIndicator_soft_delete ob s =
     (case entries_soft_delete ob (efficacy_indicators s) of
        None \<Rightarrow> (Inl NotFound, s)
      | Some es \<Rightarrow> (Inr (), s\<lparr>efficacy_indicators := es\<rparr>))"

definition mem_EfficacyIndicator_destroy :: "val \<Rightarrow> (mem, unit) api" where
  "mem_EfficacyIndicator_destroy ob s =
     (case entries_destroy ob (efficacy_indicators s) of
        None \<Rightarrow> (Inl NotFound, s)
      | Some es \<Rightarrow> (Inr (), s\<lparr>efficacy_indicators := es\<rparr>))"

fun cls_name :: "related_cls \<Rightarrow> string" where
  "cls_name Audit = ''Audit''"
| "cls_name Strategy = ''Strategy''"

fun mem_related_get :: "related_cls \<Rightarrow> ctx \<Rightarrow> val \<Rightarrow> (mem, val) api" where
  "mem_related_get cls c (IntV n) s =
     (if 0 < n then (Inr (ObjV (cls_name cls) [(''id'', IntV n)]), s) else (Inl NotFound, s))"
| "mem_related_get cls c v s = (Inl NotFound, s)"

definition mem_env :: "mem collab" where
  "mem_env =
     \<lparr>is_int_like = utils_is_int_like,
      is_uuid_like = utils_is_uuid_like,
      get_action_plan_by_id = (\<lambda>c key. mem_get_action_plan F_id c (id_key key)),
      get_action_plan_by_uuid = mem_get_action_plan F_uuid,
      create_action_plan = mem_create_action_plan,
      update_action_plan = mem_update_action_plan,
      soft_delete_action_plan = mem_soft_delete_action_plan,
      destroy_action_plan = mem_destroy_action_plan,
      Action_list = mem_Action_list,
      Action_soft_delete = mem_Action_soft_delete,
      EfficacyIndicator_list = mem_EfficacyIndicator_list,
      EfficacyIndicator_soft_delete = mem_EfficacyIndicator_soft_delete,
      EfficacyIndicator_destroy = mem_EfficacyIndicator_destroy,
      related_get = mem_related_get\<rparr>"

section \<open>A concrete storage and plan\<close>

text \<open>
  One persisted Action Plan with two Actions and one EfficacyIndicator of its own, beside
  an Action and an EfficacyIndicator of another plan; the object \<open>plan1\<close> is that plan as a
  lookup hydrates it.
\<close>

definition uuid1 :: string where
  "uuid1 = ''5869da81-4876-4687-a1ed-12cd64cf53d9''"

definition plan1_cols :: "(field \<times> val) list" where
  "plan1_cols =
     [(F_id, IntV 1), (F_uuid, StrV uuid1), (F_audit_id, IntV 7), (F_strategy_id, IntV 3),
      (F_first_action_id, NoneV), (F_state, StrV ONGOING), (F_global_efficacy, NoneV)]"

definition mem0 :: mem where
  "mem0 =
     \<lparr>action_plans = [(False, plan1_cols)],
      actions = [(StrV ''a1'', StrV uuid1, False), (StrV ''a2'', StrV uuid1, False),
                 (StrV ''a3'', StrV ''other'', False)],
      efficacy_indicators = [(StrV ''e1'', StrV uuid1, False),
                             (StrV ''e2'', StrV ''other'', False)]\<rparr>"

definition plan1 :: obj where
  "plan1 = obj_reset_changes (copy_row (row_of plan1_cols) (new_obj ''ctx''))"

definition world0 :: "mem world" where
  "world0 = \<lparr>this = plan1, store = mem0, trace = []\<rparr>"

text \<open>A transient plan, not persisted yet, and the storage before it is created.\<close>

definition uuid2 :: string where
  "uuid2 = ''0c003e4e-3a2b-4c6f-9d5e-8c1f4e2a7b10''"

definition plan2 :: obj where
  "plan2 = transient ''ctx'' [(F_uuid, StrV uuid2), (F_audit_id, IntV 7),
     (F_strategy_id, IntV 3), (F_state, StrV RECOMMENDED)]"

definition world2 :: "mem world" where
  "world2 = \<lparr>this = plan2, store = mem0, trace = []\<rparr>"

text \<open>The persisted plan after a caller has assigned a new state to it.\<close>

definition world_edit :: "mem world" where
  "world_edit = world0\<lparr>this := setattr F_state (StrV PENDING) plan1\<rparr>"

text \<open>The persisted plan after a caller has assigned it a state outside class \<open>State\<close>.\<close>

definition world_bogus :: "mem world" where
  "world_bogus = world0\<lparr>this := setattr F_state (StrV ''BOGUS'') plan1\<rparr>"



text \<open>A key of 32 decimal digits: a numeral, and the 32 hexadecimal digits of a UUID.\<close>

definition key32 :: val where
  "key32 = StrV ''12345678123456781234567812345678''"

section \<open>Steps of a run\<close>

lemma nonobject_fields:
  "filter (\<lambda>f. \<not> is_object_field f) ActionPlan_fields =
     [F_id, F_uuid, F_audit_id, F_strategy_id, F_first_action_id, F_state, F_global_efficacy]"
  by (simp add: ActionPlan_fields_def is_object_field_def object_fields_def)

lemma is_object_field_iff: "is_object_field f \<longleftrightarrow> f = F_audit \<or> f = F_strategy"
  by (auto simp add: is_object_field_def object_fields_def)

lemma copy_row_simps [simp]:
  "obj_context (copy_row r ob) = obj_context ob"
  "attrs (copy_row r ob) F_id = Some (r F_id)"
  "attrs (copy_row r ob) F_uuid = Some (r F_uuid)"
  "attrs (copy_row r ob) F_audit_id = Some (r F_audit_id)"
  "attrs (copy_row r ob) F_strategy_id = Some (r F_strategy_id)"
  "attrs (copy_row r ob) F_first_action_id = Some (r F_first_action_id)"
  "attrs (copy_row r ob) F_state = Some (r F_state)"
  "attrs (copy_row r ob) F_global_efficacy = Some (r F_global_efficacy)"
  "attrs (copy_row r ob) F_audit = attrs ob F_audit"
  "attrs (copy_row r ob) F_strategy = attrs ob F_strategy"
  by (simp_all add: copy_row_def is_object_field_iff)

lemma setattr_simps [simp]:
  "obj_context (setattr f v ob) = obj_context ob"
  "attrs (setattr f v ob) = (attrs ob)(f \<mapsto> v)"
  "changed (setattr f v ob) = insert f (changed ob)"
  by (simp_all add: setattr_def)

lemma obj_reset_changes_simps [simp]:
  "obj_context (obj_reset_changes ob) = obj_context ob"
  "attrs (obj_reset_changes ob) = attrs ob"
  "changed (obj_reset_changes ob) = {}"
  by (simp_all add: obj_reset_changes_def)

lemma obj_refresh_simps [simp]:
  "obj_context (obj_refresh ob loaded) = obj_context ob"
  "attrs (obj_refresh ob loaded) = attrs ob ++ attrs loaded"
  "changed (obj_refresh ob loaded) = {}"
  by (simp_all add: obj_refresh_def)

lemma map_add_same: "m ++ m = m"
  by (simp add: map_add_def fun_eq_iff split: option.splits)

lemma obj_get_changes_setattr:
  "obj_get_changes (setattr f v ob) = (obj_get_changes ob)(f \<mapsto> v)"
  by (auto simp add: obj_get_changes_def fun_eq_iff)

lemma obj_get_changes_empty: "changed ob = {} \<Longrightarrow> obj_get_changes ob = Map.empty"
  by (simp add: obj_get_changes_def)

lemma copy_columns:
  "for_each (filter (\<lambda>f. \<not> is_object_field f) ActionPlan_fields) (\<lambda>f. self_set f (r f)) w
     = (Inr (), w\<lparr>this := copy_row r (this w)\<rparr>)"
  apply (simp add: nonobject_fields ret_def raise_def bnd_def call_def self_context_def self_get_def self_set_def setattr_def copy_row_def)
  apply (rule arg_cong[where f="\<lambda>x. w\<lparr>this := x\<rparr>"])
  apply (rule obj.equality)
     apply (simp_all add: fun_eq_iff is_object_field_iff)
   apply (rule allI)
  subgoal for x by (cases x) simp_all
  apply (rule set_eqI)
  subgoal for x by (cases x) simp_all
  done

lemma from_db_object_lazy:
  "from_db_object env r False w =
     (Inr (obj_reset_changes (copy_row r (this w))), w\<lparr>this := obj_reset_changes (copy_row r (this w))\<rparr>)"
  unfolding from_db_object_def
  by (simp add: bnd_def copy_columns ret_def self_obj_reset_changes_def self_alias_def)

lemma for_each_call:
  "for_each xs (\<lambda>x. call (E x) (f x)) w =
     (case api_each f xs (store w) of
        (r, s', called) \<Rightarrow> (r, w\<lparr>store := s', trace := trace w @ map E called\<rparr>))"
proof (induction xs arbitrary: w)
  case Nil
  show ?case by (simp add: ret_def)
next
  case (Cons x xs)
  show ?case
    using Cons.IH by (simp add: bnd_def call_def split: prod.splits sum.splits)
qed

lemma api_each_ok: "api_each f xs s = (Inr u, s', called) \<Longrightarrow> called = xs"
  by (induction xs arbitrary: s s' called) (auto split: prod.splits sum.splits)

lemma api_each_frame:
  assumes "\<And>x s. obs (snd (f x s)) = obs s"
  shows "obs (fst (snd (api_each f xs s))) = obs s"
proof (induction xs arbitrary: s)
  case Nil
  show ?case by simp
next
  case (Cons x xs)
  have "obs (snd (f x s)) = obs s" by (rule assms)
  moreover have "obs (fst (snd (api_each f xs (snd (f x s))))) = obs (snd (f x s))" by (rule Cons.IH)
  ultimately show ?case
    by (auto split: prod.splits sum.splits)
qed

lemma load_related_run:
  "load_related env (fld, cls, fk) w =
     (case attrs (this w) fk of
        None \<Rightarrow> (Inl (AttrNotSet fk), w)
      | Some key \<Rightarrow>
          (case related_get env cls (obj_context (this w)) key (store w) of
             (Inl e, s') \<Rightarrow>
               (Inl e, w\<lparr>store := s',
                  trace := trace w @ [Ev_related_get cls (obj_context (this w)) key]\<rparr>)
           | (Inr v, s') \<Rightarrow>
               (Inr (), \<lparr>this = setattr fld v (this w), store = s',
                  trace = trace w @ [Ev_related_get cls (obj_context (this w)) key]\<rparr>)))"
  by (simp add: load_related_def bnd_def self_context_def self_get_def call_def self_set_def
      split: option.splits prod.splits sum.splits)

lemma from_db_object_eager:
  "from_db_object env r True w =
     (case related_get env Audit (obj_context (this w)) (r F_audit_id) (store w) of
        (Inl e, s1) \<Rightarrow>
          (Inl e, \<lparr>this = copy_row r (this w), store = s1,
             trace = trace w @ [Ev_related_get Audit (obj_context (this w)) (r F_audit_id)]\<rparr>)
      | (Inr a, s1) \<Rightarrow>
          (case related_get env Strategy (obj_context (this w)) (r F_strategy_id) s1 of
             (Inl e, s2) \<Rightarrow>
               (Inl e, \<lparr>this = setattr F_audit a (copy_row r (this w)), store = s2,
                  trace = trace w @ [Ev_related_get Audit (obj_context (this w)) (r F_audit_id),
                    Ev_related_get Strategy (obj_context (this w)) (r F_strategy_id)]\<rparr>)
           | (Inr st, s2) \<Rightarrow>
               (Inr (eager_row r a st (this w)), \<lparr>this = eager_row r a st (this w), store = s2,
                  trace = trace w @ [Ev_related_get Audit (obj_context (this w)) (r F_audit_id),
                    Ev_related_get Strategy (obj_context (this w)) (r F_strategy_id)]\<rparr>)))"
  unfolding from_db_object_def
  by (simp add: bnd_def copy_columns object_fields_def load_related_run ret_def eager_row_def
      self_obj_reset_changes_def self_alias_def split: prod.splits sum.splits)

lemma on_obj_lazy:
  "on_obj ob (from_db_object env r False) w = (Inr (obj_reset_changes (copy_row r ob)), w)"
  by (simp add: on_obj_def from_db_object_lazy)

lemma get_by_uuid_lazy:
  "get_by_uuid env c u False w =
     (case get_action_plan_by_uuid env c u False (store w) of
        (Inl e, s') \<Rightarrow>
          (Inl e, w\<lparr>store := s', trace := trace w @ [Ev_get_action_plan_by_uuid c u False]\<rparr>)
      | (Inr r, s') \<Rightarrow>
          (Inr (obj_reset_changes (copy_row r (new_obj c))),
           w\<lparr>store := s', trace := trace w @ [Ev_get_action_plan_by_uuid c u False]\<rparr>))"
  by (simp add: get_by_uuid_def bnd_def call_def on_obj_def from_db_object_lazy
      split: prod.splits sum.splits)

lemma save_run:
  "save env w =
     (case attrs (this w) F_uuid of
        None \<Rightarrow> (Inl (AttrNotSet F_uuid), w)
      | Some uuid \<Rightarrow>
          (case update_action_plan env uuid (obj_get_changes (this w)) (store w) of
             (Inl e, s') \<Rightarrow>
               (Inl e, w\<lparr>store := s',
                  trace := trace w @ [Ev_update_action_plan uuid (obj_get_changes (this w))]\<rparr>)
           | (Inr db_obj, s') \<Rightarrow>
               (Inr (), \<lparr>this = obj_reset_changes (copy_row db_obj (this w)), store = s',
                  trace = trace w @ [Ev_update_action_plan uuid (obj_get_changes (this w))]\<rparr>)))"
  unfolding save_def
  by (simp add: bnd_def self_obj_get_changes_def self_get_def call_def from_db_object_lazy
      self_obj_refresh_def self_obj_reset_changes_def obj_refresh_def obj_reset_changes_def
      map_add_same
      split: option.splits prod.splits sum.splits)

lemma create_run:
  "create env w =
     (case create_action_plan env (obj_get_changes (this w)) (store w) of
        (Inl e, s') \<Rightarrow>
          (Inl e, w\<lparr>store := s',
             trace := trace w @ [Ev_create_action_plan (obj_get_changes (this w))]\<rparr>)
      | (Inr r, s') \<Rightarrow>
          (case from_db_object env r True
                  (w\<lparr>store := s',
                     trace := trace w @ [Ev_create_action_plan (obj_get_changes (this w))]\<rparr>) of
             (Inl e, w') \<Rightarrow> (Inl e, w')
           | (Inr _, w') \<Rightarrow> (Inr (), w')))"
  by (simp add: create_def bnd_def self_obj_get_changes_def call_def ret_def
      split: prod.splits sum.splits)

lemma destroy_run:
  "destroy env w =
     (case attrs (this w) F_uuid of
        None \<Rightarrow> (Inl (AttrNotSet F_uuid), w)
      | Some uuid \<Rightarrow>
          (case EfficacyIndicator_list env (obj_context (this w)) uuid (store w) of
             (Inl e, s1) \<Rightarrow>
               (Inl e, w\<lparr>store := s1,
                  trace := trace w @ [Ev_EfficacyIndicator_list (obj_context (this w)) uuid]\<rparr>)
           | (Inr eis, s1) \<Rightarrow>
               (case api_each (EfficacyIndicator_destroy env) eis s1 of
                  (Inl e, s2, called) \<Rightarrow>
                    (Inl e, w\<lparr>store := s2,
                       trace := trace w @ [Ev_EfficacyIndicator_list (obj_context (this w)) uuid]
                         @ map Ev_EfficacyIndicator_destroy called\<rparr>)
                | (Inr _, s2, called) \<Rightarrow>
                    (case destroy_action_plan env uuid s2 of
                       (Inl e, s3) \<Rightarrow>
                         (Inl e, w\<lparr>store := s3,
                            trace := trace w @ [Ev_EfficacyIndicator_list (obj_context (this w)) uuid]
                              @ map Ev_EfficacyIndicator_destroy called
                              @ [Ev_destroy_action_plan uuid]\<rparr>)
                     | (Inr _, s3) \<Rightarrow>
                         (Inr (), \<lparr>this = obj_reset_changes (this w), store = s3,
                            trace = trace w @ [Ev_EfficacyIndicator_list (obj_context (this w)) uuid]
                              @ map Ev_EfficacyIndicator_destroy called
                              @ [Ev_destroy_action_plan uuid]\<rparr>)))))"
  unfolding destroy_def
  by (simp add: bnd_def self_context_def self_get_def call_def for_each_call
      self_obj_reset_changes_def split: option.splits prod.splits sum.splits)

lemma soft_delete_success:
  assumes "soft_delete env w = (Inr (), w')"
  shows "\<exists>uuid acts s1 s2 eis s3 s4 row1 s5 row2.
     attrs (this w) F_uuid = Some uuid \<and>
     Action_list env (obj_context (this w)) uuid (store w) = (Inr acts, s1) \<and>
     api_each (Action_soft_delete env) acts s1 = (Inr (), s2, acts) \<and>
     EfficacyIndicator_list env (obj_context (this w)) uuid s2 = (Inr eis, s3) \<and>
     api_each (EfficacyIndicator_soft_delete env) eis s3 = (Inr (), s4, eis) \<and>
     update_action_plan env uuid ((obj_get_changes (this w))(F_state \<mapsto> StrV DELETED)) s4
       = (Inr row1, s5) \<and>
     soft_delete_action_plan env (row1 F_uuid) s5 = (Inr row2, store w') \<and>
     trace w' = trace w @ [Ev_Action_list (obj_context (this w)) uuid]
        @ map Ev_Action_soft_delete acts
        @ [Ev_EfficacyIndicator_list (obj_context (this w)) uuid]
        @ map Ev_EfficacyIndicator_soft_delete eis
        @ [Ev_update_action_plan uuid ((obj_get_changes (this w))(F_state \<mapsto> StrV DELETED)),
           Ev_soft_delete_action_plan (row1 F_uuid)] \<and>
     this w' = obj_refresh (obj_reset_changes (copy_row row1 (setattr F_state (StrV DELETED) (this w))))
                 (obj_reset_changes (copy_row row2 (new_obj (obj_context (this w)))))"
  using assms unfolding soft_delete_def
  apply (simp add: bnd_def self_context_def self_get_def call_def for_each_call self_set_def
      save_run on_obj_lazy self_obj_refresh_def obj_get_changes_setattr
      split: option.splits prod.splits sum.splits)
  apply clarify
  apply (frule api_each_ok[of "Action_soft_delete env"])
  apply (frule api_each_ok[of "EfficacyIndicator_soft_delete env"])
  apply simp
  done

section \<open>Evaluating the reference collaborator\<close>

lemmas mem_defs = mem_env_def mem_get_action_plan_def mem_create_action_plan_def
  mem_update_action_plan_def mem_soft_delete_action_plan_def mem_destroy_action_plan_def
  mem_Action_list_def mem_Action_soft_delete_def mem_EfficacyIndicator_list_def
  mem_EfficacyIndicator_soft_delete_def mem_EfficacyIndicator_destroy_def
  entries_list_def entries_soft_delete_def entries_destroy_def entry_obj_def entry_live_def
  live_def row_of_def nonobject_fields Let_def

lemmas world_defs = world0_def world2_def plan1_def plan2_def mem0_def plan1_cols_def
  uuid1_def uuid2_def transient_def new_obj_def

lemma save_edit: "fst (save mem_env world_edit) = Inr ()"
  by (simp add: save_run world_edit_def mem_defs world_defs obj_get_changes_def)

section \<open>save\<close>

text \<open>
  C4. A \<open>save()\<close> that returns has read the uuid of the plan, has made exactly one call of
  the storage, \<open>update_action_plan\<close> with that uuid and the mapping \<open>obj_get_changes\<close>
  gives, and has then taken every field that is not a relationship field from the row the
  storage returned (the relationship fields keep their values); the change set is empty
  afterwards.
\<close>

theorem save_persists_delta:
  assumes "save env w = (Inr (), w')"
  shows "\<exists>uuid db_obj.
     attrs (this w) F_uuid = Some uuid \<and>
     update_action_plan env uuid (obj_get_changes (this w)) (store w) = (Inr db_obj, store w') \<and>
     trace w' = trace w @ [Ev_update_action_plan uuid (obj_get_changes (this w))] \<and>
     (\<forall>f. attrs (this w') f = (if is_object_field f then attrs (this w) f else Some (db_obj f))) \<and>
     obj_get_changes (this w') = Map.empty"
  using assms
  by (auto simp add: save_run copy_row_def obj_get_changes_def
      split: option.splits prod.splits sum.splits)

theorem save_persists_delta_witness:
  "fst (save mem_env world_edit) = Inr () \<and>
   trace (snd (save mem_env world_edit)) =
     [Ev_update_action_plan (StrV uuid1) [F_state \<mapsto> StrV PENDING]] \<and>
   attrs (this (snd (save mem_env world_edit))) F_state = Some (StrV PENDING) \<and>
   obj_get_changes (this (snd (save mem_env world_edit))) = Map.empty"
proof -
  have run: "save mem_env world_edit = (Inr (), snd (save mem_env world_edit))"
    using save_edit by (simp add: prod_eq_iff)
  have delta: "obj_get_changes (this world_edit) = [F_state \<mapsto> StrV PENDING]"
    by (simp add: world_edit_def world_defs obj_get_changes_setattr obj_get_changes_empty)
  have uuid: "attrs (this world_edit) F_uuid = Some (StrV uuid1)"
    by (simp add: world_edit_def world_defs row_of_def)
  have tr: "trace world_edit = []" by (simp add: world_edit_def world_defs)
  from save_persists_delta [OF run] obtain u db where
    a: "attrs (this world_edit) F_uuid = Some u" and
    b: "update_action_plan mem_env u (obj_get_changes (this world_edit)) (store world_edit)
          = (Inr db, store (snd (save mem_env world_edit)))" and
    c: "trace (snd (save mem_env world_edit)) =
          trace world_edit @ [Ev_update_action_plan u (obj_get_changes (this world_edit))]" and
    d: "\<forall>f. attrs (this (snd (save mem_env world_edit))) f =
          (if is_object_field f then attrs (this world_edit) f else Some (db f))" and
    e: "obj_get_changes (this (snd (save mem_env world_edit))) = Map.empty"
    by blast
  from a uuid have u: "u = StrV uuid1" by simp
  from b have "db F_state = StrV PENDING"
    unfolding delta u by (auto simp add: world_edit_def mem_defs world_defs)
  with d have "attrs (this (snd (save mem_env world_edit))) F_state = Some (StrV PENDING)"
    by (simp add: is_object_field_iff)
  with save_edit c e show ?thesis by (simp add: delta u tr)
qed

section \<open>Lookups and refresh\<close>

lemma from_db_object_result:
  assumes "from_db_object env r e w = (Inr ob, w')"
  shows "this w' = ob \<and> changed ob = {} \<and> obj_context ob = obj_context (this w) \<and>
     (\<forall>f. \<not> is_object_field f \<longrightarrow> attrs ob f = Some (r f))"
proof (cases e)
  case True
  with assms show ?thesis
    by (auto simp add: from_db_object_eager eager_row_def copy_row_def is_object_field_iff
        split: prod.splits sum.splits)
next
  case False
  with assms show ?thesis
    by (auto simp add: from_db_object_lazy copy_row_def)
qed

lemma get_by_uuid_result:
  assumes "get_by_uuid env c u e w = (Inr ob, w')"
  shows "this w' = this w \<and> changed ob = {} \<and> obj_context ob = c \<and>
     (\<exists>r s1. get_action_plan_by_uuid env c u e (store w) = (Inr r, s1) \<and>
        (\<forall>f. \<not> is_object_field f \<longrightarrow> attrs ob f = Some (r f)))"
proof -
  from assms obtain r s1 w2 where
    g: "get_action_plan_by_uuid env c u e (store w) = (Inr r, s1)" and
    h: "from_db_object env r e
          (w\<lparr>store := s1, trace := trace w @ [Ev_get_action_plan_by_uuid c u e],
             this := new_obj c\<rparr>) = (Inr ob, w2)" and
    w': "w' = w2\<lparr>this := this w\<rparr>"
    by (auto simp add: get_by_uuid_def bnd_def call_def on_obj_def
        split: prod.splits sum.splits)
  from from_db_object_result [OF h] g w' show ?thesis
    by (auto simp add: new_obj_def)
qed

lemma get_by_id_result:
  assumes "get_by_id env c u e w = (Inr ob, w')"
  shows "this w' = this w \<and> changed ob = {} \<and> obj_context ob = c \<and>
     (\<exists>r s1. get_action_plan_by_id env c u e (store w) = (Inr r, s1) \<and>
        (\<forall>f. \<not> is_object_field f \<longrightarrow> attrs ob f = Some (r f)))"
proof -
  from assms obtain r s1 w2 where
    g: "get_action_plan_by_id env c u e (store w) = (Inr r, s1)" and
    h: "from_db_object env r e
          (w\<lparr>store := s1, trace := trace w @ [Ev_get_action_plan_by_id c u e],
             this := new_obj c\<rparr>) = (Inr ob, w2)" and
    w': "w' = w2\<lparr>this := this w\<rparr>"
    by (auto simp add: get_by_id_def bnd_def call_def on_obj_def
        split: prod.splits sum.splits)
  from from_db_object_result [OF h] g w' show ?thesis
    by (auto simp add: new_obj_def)
qed

lemma get_result:
  assumes "get env c k e w = (Inr ob, w')"
  shows "changed ob = {}"
  using assms get_by_id_result [of env c k e w ob w'] get_by_uuid_result [of env c k e w ob w']
  by (auto simp add: get_def raise_def split: if_splits)

lemma refresh_result:
  assumes "refresh env e w = (Inr (), w')"
  shows "\<exists>uuid current w1. attrs (this w) F_uuid = Some uuid \<and>
     get_by_uuid env (obj_context (this w)) uuid e w = (Inr current, w1) \<and>
     w' = w1\<lparr>this := obj_refresh (this w1) current\<rparr>"
  using assms
  by (auto simp add: refresh_def bnd_def self_context_def self_get_def self_obj_refresh_def
      split: option.splits prod.splits sum.splits)

lemma hydrate_plan1: "get_by_uuid mem_env ''ctx'' (StrV uuid1) False world0 = (Inr plan1, world0\<lparr>trace := [Ev_get_action_plan_by_uuid ''ctx'' (StrV uuid1) False]\<rparr>)"
  by (simp add: get_by_uuid_lazy mem_defs world_defs)

lemma refresh_edit: "fst (refresh mem_env False world_edit) = Inr ()"
  by (simp add: refresh_def bnd_def self_context_def self_get_def get_by_uuid_lazy self_obj_refresh_def
     world_edit_def mem_defs world_defs)

section \<open>The change set\<close>

text \<open>
  C6. The object a lookup returns (\<open>get\<close>, \<open>get_by_id\<close> or \<open>get_by_uuid\<close>) has no
  change: \<open>obj_get_changes\<close> is the empty mapping. After the assignment of one field
  \<open>F\<close> it is exactly the mapping of \<open>F\<close> to the new value. After a \<open>save()\<close> that
  returns, and after a \<open>refresh()\<close> that returns, it is the empty mapping again.
\<close>

theorem change_set_lifecycle:
  assumes hydrated:
    "get env c k eager w = (Inr ob, w1) \<or> get_by_id env c k eager w = (Inr ob, w1) \<or>
     get_by_uuid env c k eager w = (Inr ob, w1)"
  and saved: "save env wa = (Inr (), wa')"
  and refreshed: "refresh env eager' wb = (Inr (), wb')"
  shows "obj_get_changes ob = Map.empty \<and>
     obj_get_changes (setattr F v ob) = [F \<mapsto> v] \<and>
     obj_get_changes (this wa') = Map.empty \<and>
     obj_get_changes (this wb') = Map.empty"
proof -
  from hydrated have "changed ob = {}"
  proof (elim disjE)
    assume "get env c k eager w = (Inr ob, w1)"
    then show ?thesis by (rule get_result)
  next
    assume "get_by_id env c k eager w = (Inr ob, w1)"
    from get_by_id_result [OF this] show ?thesis by simp
  next
    assume "get_by_uuid env c k eager w = (Inr ob, w1)"
    from get_by_uuid_result [OF this] show ?thesis by simp
  qed
  then have a: "obj_get_changes ob = Map.empty"
    by (rule obj_get_changes_empty)
  then have b: "obj_get_changes (setattr F v ob) = [F \<mapsto> v]"
    by (simp add: obj_get_changes_setattr)
  from saved have c: "obj_get_changes (this wa') = Map.empty"
    by (auto simp add: save_run obj_get_changes_def split: option.splits prod.splits sum.splits)
  from refresh_result [OF refreshed] have "changed (this wb') = {}"
    by auto
  then have d: "obj_get_changes (this wb') = Map.empty"
    by (rule obj_get_changes_empty)
  from a b c d show ?thesis by simp
qed

theorem change_set_lifecycle_witness:
  "get_by_uuid mem_env ''ctx'' (StrV uuid1) False world0 =
     (Inr plan1, world0\<lparr>trace := [Ev_get_action_plan_by_uuid ''ctx'' (StrV uuid1) False]\<rparr>) \<and>
   fst (save mem_env world_edit) = Inr () \<and>
   fst (refresh mem_env False world_edit) = Inr () \<and>
   obj_get_changes plan1 = Map.empty \<and>
   obj_get_changes (setattr F_state (StrV PENDING) plan1) = [F_state \<mapsto> StrV PENDING] \<and>
   obj_get_changes (this (snd (save mem_env world_edit))) = Map.empty \<and>
   obj_get_changes (this (snd (refresh mem_env False world_edit))) = Map.empty"
proof -
  have s: "save mem_env world_edit = (Inr (), snd (save mem_env world_edit))"
    using save_edit by (simp add: prod_eq_iff)
  have r: "refresh mem_env False world_edit = (Inr (), snd (refresh mem_env False world_edit))"
    using refresh_edit by (simp add: prod_eq_iff)
  have h: "get mem_env ''ctx'' (StrV uuid1) False world0 =
       (Inr plan1, world0\<lparr>trace := [Ev_get_action_plan_by_uuid ''ctx'' (StrV uuid1) False]\<rparr>) \<or>
     get_by_id mem_env ''ctx'' (StrV uuid1) False world0 =
       (Inr plan1, world0\<lparr>trace := [Ev_get_action_plan_by_uuid ''ctx'' (StrV uuid1) False]\<rparr>) \<or>
     get_by_uuid mem_env ''ctx'' (StrV uuid1) False world0 =
       (Inr plan1, world0\<lparr>trace := [Ev_get_action_plan_by_uuid ''ctx'' (StrV uuid1) False]\<rparr>)"
    using hydrate_plan1 by simp
  from change_set_lifecycle [OF h s r, of F_state "StrV PENDING"] hydrate_plan1 save_edit refresh_edit
  show ?thesis by simp
qed

section \<open>destroy\<close>

lemma events_since_append [simp]: "trace w' = trace w @ evs \<Longrightarrow> events_since w w' = evs"
  by (simp add: events_since_def)

lemma events_since_same [simp]: "events_since w w = []"
  by (simp add: events_since_def)

lemma list_all_destroy_events [simp]:
  "list_all destroy_event (map Ev_EfficacyIndicator_destroy xs)"
  by (induction xs) simp_all

lemma update_not_destroy_event:
  "list_all destroy_event evs \<Longrightarrow> Ev_update_action_plan uuid delta \<notin> set evs"
  by (induction evs) auto

lemma destroy_result:
  assumes "destroy env w = (r, w')"
  shows "attrs (this w') = attrs (this w) \<and> obj_context (this w') = obj_context (this w) \<and>
     changed (this w') = (if r = Inr () then {} else changed (this w)) \<and>
     list_all destroy_event (events_since w w')"
  using assms
  by (auto simp add: destroy_run events_since_def split: option.splits prod.splits sum.splits)

lemma destroy_edit:
  "destroy mem_env world_edit =
     (Inr (),
      \<lparr>this = obj_reset_changes (this world_edit),
       store = \<lparr>action_plans = [],
                actions = [(StrV ''a1'', StrV uuid1, False), (StrV ''a2'', StrV uuid1, False),
                           (StrV ''a3'', StrV ''other'', False)],
                efficacy_indicators = [(StrV ''e2'', StrV ''other'', False)]\<rparr>,
       trace = [Ev_EfficacyIndicator_list ''ctx'' (StrV uuid1),
                Ev_EfficacyIndicator_destroy
                  (ObjV ''EfficacyIndicator''
                     [(''uuid'', StrV ''e1''), (''action_plan_uuid'', StrV uuid1)]),
                Ev_destroy_action_plan (StrV uuid1)]\<rparr>)"
  by (simp add: destroy_run world_edit_def mem_defs world_defs)

text \<open>
  C10. Whatever its outcome, \<open>destroy()\<close> leaves every attribute of the object as it
  was, the state included. The calls it makes are the listing of the efficacy indicators,
  their destruction and the destruction of the row of the plan: there is no
  \<open>update_action_plan\<close> among them. Its one local effect is that the change set is empty
  when it returns; when it raises the change set is as before.
\<close>

theorem destroy_local_effect:
  assumes "destroy env w = (r, w')"
  shows "attrs (this w') = attrs (this w) \<and>
     obj_context (this w') = obj_context (this w) \<and>
     changed (this w') = (if r = Inr () then {} else changed (this w)) \<and>
     list_all destroy_event (events_since w w') \<and>
     (\<forall>uuid delta. Ev_update_action_plan uuid delta \<notin> set (events_since w w'))"
  using destroy_result [OF assms] update_not_destroy_event [of "events_since w w'"]
  by simp

theorem destroy_local_effect_witness:
  "fst (destroy mem_env world_edit) = Inr () \<and>
   attrs (this world_edit) F_state = Some (StrV PENDING) \<and>
   changed (this world_edit) = {F_state} \<and>
   attrs (this (snd (destroy mem_env world_edit))) F_state = Some (StrV PENDING) \<and>
   changed (this (snd (destroy mem_env world_edit))) = {} \<and>
   list_all destroy_event (events_since world_edit (snd (destroy mem_env world_edit)))"
proof -
  have run: "destroy mem_env world_edit = (Inr (), snd (destroy mem_env world_edit))"
    by (simp add: destroy_edit)
  have before: "attrs (this world_edit) F_state = Some (StrV PENDING)"
      "changed (this world_edit) = {F_state}"
    by (simp_all add: world_edit_def world_defs)
  have ok: "fst (destroy mem_env world_edit) = Inr ()"
    by (simp add: destroy_edit)
  from destroy_local_effect [OF run] before ok show ?thesis
    by simp
qed

text \<open>
  C2. A \<open>destroy()\<close> that returns has listed the efficacy indicators filtered by the uuid
  of the plan, destroyed each of them in the order of the list, then destroyed the row of
  the plan, then reset the change set, and has made no other call. No accessor of Action is
  called: whatever part of the storage the three calls made leave alone (the Action rows,
  in the reference storage) is after \<open>destroy()\<close> what it was before.
\<close>

theorem destroy_cascade:
  assumes run: "destroy env w = (Inr (), w')"
  and list_keeps: "\<And>c u s. obs (snd (EfficacyIndicator_list env c u s)) = obs s"
  and indicator_keeps: "\<And>x s. obs (snd (EfficacyIndicator_destroy env x s)) = obs s"
  and plan_keeps: "\<And>u s. obs (snd (destroy_action_plan env u s)) = obs s"
  shows "\<exists>uuid related_efficacy_indicators s1 s2.
     attrs (this w) F_uuid = Some uuid \<and>
     EfficacyIndicator_list env (obj_context (this w)) uuid (store w)
       = (Inr related_efficacy_indicators, s1) \<and>
     api_each (EfficacyIndicator_destroy env) related_efficacy_indicators s1
       = (Inr (), s2, related_efficacy_indicators) \<and>
     destroy_action_plan env uuid s2 = (Inr (), store w') \<and>
     trace w' = trace w @ [Ev_EfficacyIndicator_list (obj_context (this w)) uuid]
        @ map Ev_EfficacyIndicator_destroy related_efficacy_indicators
        @ [Ev_destroy_action_plan uuid] \<and>
     this w' = obj_reset_changes (this w) \<and>
     obs (store w') = obs (store w)"
proof -
  from run obtain uuid eis s1 s2 called where
    u: "attrs (this w) F_uuid = Some uuid" and
    l: "EfficacyIndicator_list env (obj_context (this w)) uuid (store w) = (Inr eis, s1)" and
    d: "api_each (EfficacyIndicator_destroy env) eis s1 = (Inr (), s2, called)" and
    p: "destroy_action_plan env uuid s2 = (Inr (), store w')" and
    t: "trace w' = trace w @ [Ev_EfficacyIndicator_list (obj_context (this w)) uuid]
        @ map Ev_EfficacyIndicator_destroy called @ [Ev_destroy_action_plan uuid]" and
    o: "this w' = obj_reset_changes (this w)"
    by (auto simp add: destroy_run split: option.splits prod.splits sum.splits)
  from d have c: "called = eis" by (rule api_each_ok)
  have "obs s1 = obs (store w)" using list_keeps [of "obj_context (this w)" uuid "store w"] l by simp
  moreover have "obs s2 = obs s1"
    using api_each_frame [of obs "EfficacyIndicator_destroy env" eis s1] indicator_keeps d by simp
  moreover have "obs (store w') = obs s2" using plan_keeps [of uuid s2] p by simp
  ultimately have "obs (store w') = obs (store w)" by simp
  with u l d p t o c show ?thesis by blast
qed

theorem destroy_cascade_witness:
  "fst (destroy mem_env world0) = Inr () \<and>
   trace (snd (destroy mem_env world0)) =
     [Ev_EfficacyIndicator_list ''ctx'' (StrV uuid1),
      Ev_EfficacyIndicator_destroy
        (ObjV ''EfficacyIndicator'' [(''uuid'', StrV ''e1''), (''action_plan_uuid'', StrV uuid1)]),
      Ev_destroy_action_plan (StrV uuid1)] \<and>
   action_plans (store (snd (destroy mem_env world0))) = [] \<and>
   efficacy_indicators (store (snd (destroy mem_env world0))) = [(StrV ''e2'', StrV ''other'', False)] \<and>
   actions (store (snd (destroy mem_env world0))) = actions mem0 \<and>
   changed (this (snd (destroy mem_env world0))) = {}"
proof -
  have ev: "destroy mem_env world0 =
     (Inr (),
      \<lparr>this = obj_reset_changes (this world0),
       store = \<lparr>action_plans = [],
                actions = [(StrV ''a1'', StrV uuid1, False), (StrV ''a2'', StrV uuid1, False),
                           (StrV ''a3'', StrV ''other'', False)],
                efficacy_indicators = [(StrV ''e2'', StrV ''other'', False)]\<rparr>,
       trace = [Ev_EfficacyIndicator_list ''ctx'' (StrV uuid1),
                Ev_EfficacyIndicator_destroy
                  (ObjV ''EfficacyIndicator''
                     [(''uuid'', StrV ''e1''), (''action_plan_uuid'', StrV uuid1)]),
                Ev_destroy_action_plan (StrV uuid1)]\<rparr>)"
    by (simp add: destroy_run mem_defs world_defs)
  have run: "destroy mem_env world0 = (Inr (), snd (destroy mem_env world0))"
    by (simp add: ev)
  have k1: "\<And>c u s. actions (snd (EfficacyIndicator_list mem_env c u s)) = actions s"
    by (simp add: mem_defs)
  have k2: "\<And>x s. actions (snd (EfficacyIndicator_destroy mem_env x s)) = actions s"
    by (simp add: mem_defs split: option.splits)
  have k3: "\<And>u s. actions (snd (destroy_action_plan mem_env u s)) = actions s"
    by (simp add: mem_defs split: option.splits)
  from destroy_cascade [of mem_env world0 "snd (destroy mem_env world0)" actions, OF run k1 k2 k3]
  have "actions (store (snd (destroy mem_env world0))) = actions (store world0)"
    by blast
  then show ?thesis by (simp add: ev) (simp add: world_defs)
qed

section \<open>soft_delete\<close>

lemmas run_defs = bnd_def ret_def call_def self_context_def self_get_def self_set_def
  self_obj_refresh_def

lemma soft_delete_world0:
  "soft_delete mem_env world0 =
     (Inr (),
      \<lparr>this = obj_refresh
          (obj_reset_changes (copy_row
             (row_of [(F_id, IntV 1), (F_uuid, StrV uuid1), (F_audit_id, IntV 7),
                (F_strategy_id, IntV 3), (F_first_action_id, NoneV), (F_state, StrV DELETED),
                (F_global_efficacy, NoneV)])
             (setattr F_state (StrV DELETED) plan1)))
          (obj_reset_changes (copy_row
             (row_of [(F_id, IntV 1), (F_uuid, StrV uuid1), (F_audit_id, IntV 7),
                (F_strategy_id, IntV 3), (F_first_action_id, NoneV), (F_state, StrV DELETED),
                (F_global_efficacy, NoneV)])
             \<lparr>obj_context = ''ctx'', attrs = Map.empty, changed = {}\<rparr>)),
       store = \<lparr>action_plans =
                  [(True, [(F_id, IntV 1), (F_uuid, StrV uuid1), (F_audit_id, IntV 7),
                     (F_strategy_id, IntV 3), (F_first_action_id, NoneV), (F_state, StrV DELETED),
                     (F_global_efficacy, NoneV)])],
                actions = [(StrV ''a1'', StrV uuid1, True), (StrV ''a2'', StrV uuid1, True),
                           (StrV ''a3'', StrV ''other'', False)],
                efficacy_indicators = [(StrV ''e1'', StrV uuid1, True),
                                       (StrV ''e2'', StrV ''other'', False)]\<rparr>,
       trace = [Ev_Action_list ''ctx'' (StrV uuid1),
                Ev_Action_soft_delete
                  (ObjV ''Action'' [(''uuid'', StrV ''a1''), (''action_plan_uuid'', StrV uuid1)]),
                Ev_Action_soft_delete
                  (ObjV ''Action'' [(''uuid'', StrV ''a2''), (''action_plan_uuid'', StrV uuid1)]),
                Ev_EfficacyIndicator_list ''ctx'' (StrV uuid1),
                Ev_EfficacyIndicator_soft_delete
                  (ObjV ''EfficacyIndicator''
                     [(''uuid'', StrV ''e1''), (''action_plan_uuid'', StrV uuid1)]),
                Ev_update_action_plan (StrV uuid1) [F_state \<mapsto> StrV DELETED],
                Ev_soft_delete_action_plan (StrV uuid1)]\<rparr>)"
  unfolding soft_delete_def
  by (simp add: run_defs save_run on_obj_lazy mem_defs world_defs obj_get_changes_setattr
      obj_get_changes_empty)


lemma save_bogus:
  "save mem_env world_bogus =
     (Inr (),
      \<lparr>this = obj_reset_changes (copy_row
          (row_of [(F_id, IntV 1), (F_uuid, StrV uuid1), (F_audit_id, IntV 7),
             (F_strategy_id, IntV 3), (F_first_action_id, NoneV), (F_state, StrV ''BOGUS''),
             (F_global_efficacy, NoneV)])
          (this world_bogus)),
       store = mem0\<lparr>action_plans :=
          [(False, [(F_id, IntV 1), (F_uuid, StrV uuid1), (F_audit_id, IntV 7),
             (F_strategy_id, IntV 3), (F_first_action_id, NoneV), (F_state, StrV ''BOGUS''),
             (F_global_efficacy, NoneV)])]\<rparr>,
       trace = [Ev_update_action_plan (StrV uuid1) [F_state \<mapsto> StrV ''BOGUS'']]\<rparr>)"
  by (simp add: save_run world_bogus_def mem_defs world_defs obj_get_changes_setattr
      obj_get_changes_empty)

lemma dependents_first_append:
  "list_all (\<lambda>e. \<not> plan_event e) xs \<Longrightarrow> dependents_first (xs @ ys) = dependents_first ys"
  by (induction xs) simp_all

lemma no_plan_event_map [simp]:
  "list_all (\<lambda>e. \<not> plan_event e) (map Ev_Action_soft_delete xs)"
  "list_all (\<lambda>e. \<not> plan_event e) (map Ev_EfficacyIndicator_soft_delete xs)"
  by (induction xs) simp_all

lemma dependents_first_map [simp]:
  "dependents_first (map Ev_Action_soft_delete xs @ ys) = dependents_first ys"
  "dependents_first (map Ev_EfficacyIndicator_soft_delete xs @ ys) = dependents_first ys"
  by (simp_all add: dependents_first_append)

lemma dependents_first_map' [simp]:
  "dependents_first (map Ev_Action_soft_delete xs)"
  "dependents_first (map Ev_EfficacyIndicator_soft_delete xs)"
  using dependents_first_map [of xs "[]"] by simp_all

lemma soft_delete_dependents_first:
  assumes "soft_delete env w = (r, w')"
  shows "dependents_first (events_since w w')"
  using assms unfolding soft_delete_def
  by (auto simp add: bnd_def self_context_def self_get_def call_def for_each_call self_set_def
      save_run on_obj_lazy self_obj_refresh_def events_since_def
      split: option.splits prod.splits sum.splits)

lemma soft_delete_mutates_late:
  assumes run: "soft_delete env w = (r, w')" and changed: "this w' \<noteq> this w"
  shows "\<exists>uuid related_actions s1 s2 related_efficacy_indicators s3 s4 rest.
     attrs (this w) F_uuid = Some uuid \<and>
     Action_list env (obj_context (this w)) uuid (store w) = (Inr related_actions, s1) \<and>
     api_each (Action_soft_delete env) related_actions s1 = (Inr (), s2, related_actions) \<and>
     EfficacyIndicator_list env (obj_context (this w)) uuid s2
       = (Inr related_efficacy_indicators, s3) \<and>
     api_each (EfficacyIndicator_soft_delete env) related_efficacy_indicators s3
       = (Inr (), s4, related_efficacy_indicators) \<and>
     events_since w w' = [Ev_Action_list (obj_context (this w)) uuid]
        @ map Ev_Action_soft_delete related_actions
        @ [Ev_EfficacyIndicator_list (obj_context (this w)) uuid]
        @ map Ev_EfficacyIndicator_soft_delete related_efficacy_indicators
        @ Ev_update_action_plan uuid ((obj_get_changes (this w))(F_state \<mapsto> StrV DELETED))
          # rest"
proof -
  from run changed obtain uuid where u: "attrs (this w) F_uuid = Some uuid"
    unfolding soft_delete_def
    by (auto simp add: bnd_def self_context_def self_get_def split: option.splits)
  obtain ra s1 where l1: "Action_list env (obj_context (this w)) uuid (store w) = (ra, s1)"
    by (cases "Action_list env (obj_context (this w)) uuid (store w)") auto
  from run changed u l1 obtain acts where ra: "ra = Inr acts"
    unfolding soft_delete_def
    by (cases ra) (auto simp add: bnd_def self_context_def self_get_def call_def)
  obtain r2 s2 c2 where e1: "api_each (Action_soft_delete env) acts s1 = (r2, s2, c2)"
    by (cases "api_each (Action_soft_delete env) acts s1") auto
  from run changed u l1 ra e1 have r2: "r2 = Inr ()"
    unfolding soft_delete_def
    by (cases r2) (auto simp add: bnd_def self_context_def self_get_def call_def for_each_call)
  with e1 have c2: "c2 = acts" by (auto dest: api_each_ok)
  obtain rb s3 where l2: "EfficacyIndicator_list env (obj_context (this w)) uuid s2 = (rb, s3)"
    by (cases "EfficacyIndicator_list env (obj_context (this w)) uuid s2") auto
  from run changed u l1 ra e1 r2 l2 obtain eis where rb: "rb = Inr eis"
    unfolding soft_delete_def
    by (cases rb) (auto simp add: bnd_def self_context_def self_get_def call_def for_each_call)
  obtain r4 s4 c4 where e2: "api_each (EfficacyIndicator_soft_delete env) eis s3 = (r4, s4, c4)"
    by (cases "api_each (EfficacyIndicator_soft_delete env) eis s3") auto
  from run changed u l1 ra e1 r2 l2 rb e2 have r4: "r4 = Inr ()"
    unfolding soft_delete_def
    by (cases r4) (auto simp add: bnd_def self_context_def self_get_def call_def for_each_call)
  with e2 have c4: "c4 = eis" by (auto dest: api_each_ok)
  from run u l1 ra e1 r2 c2 l2 rb e2 r4 c4
  have "\<exists>rest. events_since w w' = [Ev_Action_list (obj_context (this w)) uuid]
        @ map Ev_Action_soft_delete acts
        @ [Ev_EfficacyIndicator_list (obj_context (this w)) uuid]
        @ map Ev_EfficacyIndicator_soft_delete eis
        @ Ev_update_action_plan uuid ((obj_get_changes (this w))(F_state \<mapsto> StrV DELETED))
          # rest"
    unfolding soft_delete_def
    by (auto simp add: bnd_def self_context_def self_get_def call_def for_each_call self_set_def
      save_run on_obj_lazy self_obj_refresh_def events_since_def obj_get_changes_setattr
      split: option.splits prod.splits sum.splits)
  with u l1 ra e1 r2 c2 l2 rb e2 r4 c4 show ?thesis by blast
qed


text \<open>
  C1. In every run of \<open>soft_delete()\<close>, whether it returns or raises, no soft-delete of a
  dependent is called after a call on the row of the plan, and the object is left as it
  was unless every Action and every EfficacyIndicator listed has been soft-deleted and
  the update of \<open>save()\<close> carrying the state \<open>DELETED\<close> has been sent: the state is
  assigned only after all the dependents are soft-deleted. A \<open>soft_delete()\<close> that returns
  has made these calls, in this order and no other: the listing of the Actions filtered by
  the uuid of the plan, the soft-delete of each of them, the listing of the
  EfficacyIndicators with the same filter, the soft-delete of each of them, then the
  \<open>update_action_plan\<close> by which \<open>save()\<close> persists the state \<open>DELETED\<close>, then the
  storage-level soft-delete of the row of the plan. Afterwards every field of the object
  that is not a relationship field is the one of the row the soft-delete returned, and the
  change set is empty.
\<close>

theorem soft_delete_cascade_order:
  assumes "soft_delete env w = (r, w')"
  shows "dependents_first (events_since w w') \<and>
   (this w' \<noteq> this w \<longrightarrow>
    (\<exists>uuid related_actions s1 s2 related_efficacy_indicators s3 s4 rest.
     attrs (this w) F_uuid = Some uuid \<and>
     Action_list env (obj_context (this w)) uuid (store w) = (Inr related_actions, s1) \<and>
     api_each (Action_soft_delete env) related_actions s1 = (Inr (), s2, related_actions) \<and>
     EfficacyIndicator_list env (obj_context (this w)) uuid s2
       = (Inr related_efficacy_indicators, s3) \<and>
     api_each (EfficacyIndicator_soft_delete env) related_efficacy_indicators s3
       = (Inr (), s4, related_efficacy_indicators) \<and>
     events_since w w' = [Ev_Action_list (obj_context (this w)) uuid]
        @ map Ev_Action_soft_delete related_actions
        @ [Ev_EfficacyIndicator_list (obj_context (this w)) uuid]
        @ map Ev_EfficacyIndicator_soft_delete related_efficacy_indicators
        @ Ev_update_action_plan uuid ((obj_get_changes (this w))(F_state \<mapsto> StrV DELETED))
          # rest)) \<and>
   (r = Inr () \<longrightarrow>
    (\<exists>uuid related_actions s1 s2 related_efficacy_indicators s3 s4 db_obj1 s5 db_obj.
     attrs (this w) F_uuid = Some uuid \<and>
     Action_list env (obj_context (this w)) uuid (store w) = (Inr related_actions, s1) \<and>
     api_each (Action_soft_delete env) related_actions s1 = (Inr (), s2, related_actions) \<and>
     EfficacyIndicator_list env (obj_context (this w)) uuid s2
       = (Inr related_efficacy_indicators, s3) \<and>
     api_each (EfficacyIndicator_soft_delete env) related_efficacy_indicators s3
       = (Inr (), s4, related_efficacy_indicators) \<and>
     update_action_plan env uuid ((obj_get_changes (this w))(F_state \<mapsto> StrV DELETED)) s4
       = (Inr db_obj1, s5) \<and>
     soft_delete_action_plan env (db_obj1 F_uuid) s5 = (Inr db_obj, store w') \<and>
     trace w' = trace w @ [Ev_Action_list (obj_context (this w)) uuid]
        @ map Ev_Action_soft_delete related_actions
        @ [Ev_EfficacyIndicator_list (obj_context (this w)) uuid]
        @ map Ev_EfficacyIndicator_soft_delete related_efficacy_indicators
        @ [Ev_update_action_plan uuid ((obj_get_changes (this w))(F_state \<mapsto> StrV DELETED)),
           Ev_soft_delete_action_plan (db_obj1 F_uuid)] \<and>
     (\<forall>f. attrs (this w') f = (if is_object_field f then attrs (this w) f else Some (db_obj f))) \<and>
     changed (this w') = {}))"
proof (intro conjI impI)
  show "dependents_first (events_since w w')"
    using assms by (rule soft_delete_dependents_first)
next
  assume "this w' \<noteq> this w"
  with assms show "\<exists>uuid related_actions s1 s2 related_efficacy_indicators s3 s4 rest.
     attrs (this w) F_uuid = Some uuid \<and>
     Action_list env (obj_context (this w)) uuid (store w) = (Inr related_actions, s1) \<and>
     api_each (Action_soft_delete env) related_actions s1 = (Inr (), s2, related_actions) \<and>
     EfficacyIndicator_list env (obj_context (this w)) uuid s2
       = (Inr related_efficacy_indicators, s3) \<and>
     api_each (EfficacyIndicator_soft_delete env) related_efficacy_indicators s3
       = (Inr (), s4, related_efficacy_indicators) \<and>
     events_since w w' = [Ev_Action_list (obj_context (this w)) uuid]
        @ map Ev_Action_soft_delete related_actions
        @ [Ev_EfficacyIndicator_list (obj_context (this w)) uuid]
        @ map Ev_EfficacyIndicator_soft_delete related_efficacy_indicators
        @ Ev_update_action_plan uuid ((obj_get_changes (this w))(F_state \<mapsto> StrV DELETED))
          # rest"
    by (rule soft_delete_mutates_late)
next
  assume "r = Inr ()"
  with assms have run: "soft_delete env w = (Inr (), w')" by simp
  from soft_delete_success [OF run] obtain uuid acts s1 s2 eis s3 s4 row1 s5 row2 where
    f: "attrs (this w) F_uuid = Some uuid"
     "Action_list env (obj_context (this w)) uuid (store w) = (Inr acts, s1)"
     "api_each (Action_soft_delete env) acts s1 = (Inr (), s2, acts)"
     "EfficacyIndicator_list env (obj_context (this w)) uuid s2 = (Inr eis, s3)"
     "api_each (EfficacyIndicator_soft_delete env) eis s3 = (Inr (), s4, eis)"
     "update_action_plan env uuid ((obj_get_changes (this w))(F_state \<mapsto> StrV DELETED)) s4
       = (Inr row1, s5)"
     "soft_delete_action_plan env (row1 F_uuid) s5 = (Inr row2, store w')"
     "trace w' = trace w @ [Ev_Action_list (obj_context (this w)) uuid]
        @ map Ev_Action_soft_delete acts
        @ [Ev_EfficacyIndicator_list (obj_context (this w)) uuid]
        @ map Ev_EfficacyIndicator_soft_delete eis
        @ [Ev_update_action_plan uuid ((obj_get_changes (this w))(F_state \<mapsto> StrV DELETED)),
           Ev_soft_delete_action_plan (row1 F_uuid)]" and
    t: "this w' = obj_refresh (obj_reset_changes (copy_row row1 (setattr F_state (StrV DELETED) (this w))))
                 (obj_reset_changes (copy_row row2 (new_obj (obj_context (this w)))))"
    by blast
  from t have g: "\<forall>f. attrs (this w') f = (if is_object_field f then attrs (this w) f else Some (row2 f))"
    by (auto simp add: copy_row_def map_add_def new_obj_def is_object_field_iff)
  from t have h: "changed (this w') = {}" by simp
  from f g h show "\<exists>uuid related_actions s1 s2 related_efficacy_indicators s3 s4 db_obj1 s5 db_obj.
     attrs (this w) F_uuid = Some uuid \<and>
     Action_list env (obj_context (this w)) uuid (store w) = (Inr related_actions, s1) \<and>
     api_each (Action_soft_delete env) related_actions s1 = (Inr (), s2, related_actions) \<and>
     EfficacyIndicator_list env (obj_context (this w)) uuid s2
       = (Inr related_efficacy_indicators, s3) \<and>
     api_each (EfficacyIndicator_soft_delete env) related_efficacy_indicators s3
       = (Inr (), s4, related_efficacy_indicators) \<and>
     update_action_plan env uuid ((obj_get_changes (this w))(F_state \<mapsto> StrV DELETED)) s4
       = (Inr db_obj1, s5) \<and>
     soft_delete_action_plan env (db_obj1 F_uuid) s5 = (Inr db_obj, store w') \<and>
     trace w' = trace w @ [Ev_Action_list (obj_context (this w)) uuid]
        @ map Ev_Action_soft_delete related_actions
        @ [Ev_EfficacyIndicator_list (obj_context (this w)) uuid]
        @ map Ev_EfficacyIndicator_soft_delete related_efficacy_indicators
        @ [Ev_update_action_plan uuid ((obj_get_changes (this w))(F_state \<mapsto> StrV DELETED)),
           Ev_soft_delete_action_plan (db_obj1 F_uuid)] \<and>
     (\<forall>f. attrs (this w') f = (if is_object_field f then attrs (this w) f else Some (db_obj f))) \<and>
     changed (this w') = {}"
    by blast
qed

theorem soft_delete_cascade_order_witness:
  "fst (soft_delete mem_env world0) = Inr () \<and>
   trace (snd (soft_delete mem_env world0)) =
     [Ev_Action_list ''ctx'' (StrV uuid1),
      Ev_Action_soft_delete
        (ObjV ''Action'' [(''uuid'', StrV ''a1''), (''action_plan_uuid'', StrV uuid1)]),
      Ev_Action_soft_delete
        (ObjV ''Action'' [(''uuid'', StrV ''a2''), (''action_plan_uuid'', StrV uuid1)]),
      Ev_EfficacyIndicator_list ''ctx'' (StrV uuid1),
      Ev_EfficacyIndicator_soft_delete
        (ObjV ''EfficacyIndicator'' [(''uuid'', StrV ''e1''), (''action_plan_uuid'', StrV uuid1)]),
      Ev_update_action_plan (StrV uuid1) [F_state \<mapsto> StrV DELETED],
      Ev_soft_delete_action_plan (StrV uuid1)] \<and>
   actions (store (snd (soft_delete mem_env world0))) =
     [(StrV ''a1'', StrV uuid1, True), (StrV ''a2'', StrV uuid1, True),
      (StrV ''a3'', StrV ''other'', False)] \<and>
   efficacy_indicators (store (snd (soft_delete mem_env world0))) =
     [(StrV ''e1'', StrV uuid1, True), (StrV ''e2'', StrV ''other'', False)] \<and>
   attrs (this (snd (soft_delete mem_env world0))) F_state = Some (StrV DELETED) \<and>
   changed (this (snd (soft_delete mem_env world0))) = {} \<and>
   this (snd (soft_delete mem_env world0)) \<noteq> this world0 \<and>
   dependents_first (events_since world0 (snd (soft_delete mem_env world0)))"
proof -
  have run: "soft_delete mem_env world0 = (Inr (), snd (soft_delete mem_env world0))"
    by (simp add: soft_delete_world0)
  from soft_delete_cascade_order [OF run]
  have "changed (this (snd (soft_delete mem_env world0))) = {} \<and>
      dependents_first (events_since world0 (snd (soft_delete mem_env world0)))"
    by blast
  moreover have "attrs (this (snd (soft_delete mem_env world0))) F_state = Some (StrV DELETED)"
    by (simp add: soft_delete_world0 row_of_def map_add_def)
  moreover have "attrs (this world0) F_state = Some (StrV ONGOING)"
    by (simp add: world_defs row_of_def)
  ultimately have "this (snd (soft_delete mem_env world0)) \<noteq> this world0"
    by (auto simp add: ONGOING_def DELETED_def)
  with \<open>changed (this (snd (soft_delete mem_env world0))) = {} \<and>
      dependents_first (events_since world0 (snd (soft_delete mem_env world0)))\<close>
  show ?thesis
    by (simp add: soft_delete_world0 row_of_def map_add_def)
qed

lemma find_map_replace:
  "find P ps = Some p \<Longrightarrow> P r \<Longrightarrow> find P (map (\<lambda>q. if P q then r else q) ps) = Some r"
  by (induction ps) (auto split: if_splits)

lemma find_holds: "find P ps = Some p \<Longrightarrow> P p"
  by (induction ps) (auto split: if_splits)

lemma mem_update_then_soft_delete:
  assumes upd: "mem_update_action_plan uuid delta s = (Inr db, s')"
  and keep: "delta F_uuid = None"
  and del: "mem_soft_delete_action_plan (db F_uuid) s' = (Inr db', s'')"
  shows "db' = db \<and> (\<forall>v. delta F_state = Some v \<longrightarrow> db F_state = v)"
proof -
  from upd obtain p where
    f: "find (live F_uuid uuid) (action_plans s) = Some p"
    by (auto simp add: mem_update_action_plan_def split: option.splits)
  define cols where "cols = map (\<lambda>f. (f, case delta f of Some v' \<Rightarrow> v' | None \<Rightarrow> row_of (snd p) f))
      (filter (\<lambda>f. \<not> is_object_field f) ActionPlan_fields)"
  from upd f have db: "db = row_of cols" and
    s': "s' = s\<lparr>action_plans :=
       map (\<lambda>q. if live F_uuid uuid q then (False, cols) else q) (action_plans s)\<rparr>"
    by (auto simp add: mem_update_action_plan_def cols_def Let_def)
  from find_holds [OF f] have lp: "map_of (snd p) F_uuid = Some uuid"
    by (simp add: live_def)
  then have cu: "map_of cols F_uuid = Some uuid"
    by (simp add: cols_def nonobject_fields keep row_of_def)
  then have u: "db F_uuid = uuid"
    by (simp add: db row_of_def)
  from cu have lr: "live F_uuid uuid (False, cols)"
    by (simp add: live_def)
  from find_map_replace [OF f lr] s'
  have "find (live F_uuid uuid) (action_plans s') = Some (False, cols)"
    by simp
  with del u have "db' = row_of cols"
    by (auto simp add: mem_soft_delete_action_plan_def)
  moreover have "\<forall>v. delta F_state = Some v \<longrightarrow> db F_state = v"
    by (simp add: db cols_def nonobject_fields row_of_def)
  ultimately show ?thesis using db by simp
qed

text \<open>
  C7, as amended. Let \<open>soft_delete()\<close> return, and let the storage be such that the
  soft-delete of a row that follows the update of its state to \<open>DELETED\<close> returns the row
  with the state \<open>DELETED\<close>. Then, whatever the state was before, the update sent to the
  storage sets the state to \<open>DELETED\<close> and the state of the plan is \<open>DELETED\<close> afterwards;
  \<open>DELETED\<close> is one of the seven distinct values of class \<open>State\<close>. A state a caller
  assigns is sent to the storage by \<open>save()\<close> as it is, whatever its value.
\<close>

theorem soft_delete_sets_DELETED:
  assumes deleted: "soft_delete env w = (Inr (), w')"
  and uuid: "attrs (this w) F_uuid = Some uuid"
  and storage: "\<And>s db s' db' s''.
     update_action_plan env uuid ((obj_get_changes (this w))(F_state \<mapsto> StrV DELETED)) s
       = (Inr db, s')
     \<Longrightarrow> soft_delete_action_plan env (db F_uuid) s' = (Inr db', s'')
     \<Longrightarrow> db' F_state = StrV DELETED"
  shows "Ev_update_action_plan uuid ((obj_get_changes (this w))(F_state \<mapsto> StrV DELETED))
       \<in> set (events_since w w') \<and>
     attrs (this w') F_state = Some (StrV DELETED) \<and>
     DELETED \<in> set State_values \<and> distinct State_values \<and> length State_values = 7 \<and>
     (\<forall>wa v wa'. save env (wa\<lparr>this := setattr F_state v (this wa)\<rparr>) = (Inr (), wa') \<longrightarrow>
        (\<exists>uuid'. attrs (this wa) F_uuid = Some uuid' \<and>
           events_since wa wa'
             = [Ev_update_action_plan uuid' ((obj_get_changes (this wa))(F_state \<mapsto> v))]))"
proof -
  from soft_delete_success [OF deleted] uuid obtain acts eis s4 row1 s5 row2 where
    t: "trace w' = trace w @ [Ev_Action_list (obj_context (this w)) uuid]
        @ map Ev_Action_soft_delete acts
        @ [Ev_EfficacyIndicator_list (obj_context (this w)) uuid]
        @ map Ev_EfficacyIndicator_soft_delete eis
        @ [Ev_update_action_plan uuid ((obj_get_changes (this w))(F_state \<mapsto> StrV DELETED)),
           Ev_soft_delete_action_plan (row1 F_uuid)]" and
    up: "update_action_plan env uuid ((obj_get_changes (this w))(F_state \<mapsto> StrV DELETED)) s4
       = (Inr row1, s5)" and
    d: "soft_delete_action_plan env (row1 F_uuid) s5 = (Inr row2, store w')" and
    o: "this w' = obj_refresh (obj_reset_changes (copy_row row1 (setattr F_state (StrV DELETED) (this w))))
                 (obj_reset_changes (copy_row row2 (new_obj (obj_context (this w)))))"
    by auto
  from t have a: "Ev_update_action_plan uuid ((obj_get_changes (this w))(F_state \<mapsto> StrV DELETED))
      \<in> set (events_since w w')"
    by (simp add: events_since_def)
  from o have "attrs (this w') F_state = Some (row2 F_state)"
    by (simp add: map_add_def)
  with storage [OF up d] have b: "attrs (this w') F_state = Some (StrV DELETED)"
    by simp
  have c: "DELETED \<in> set State_values \<and> distinct State_values \<and> length State_values = 7"
    by (simp add: State_values_def RECOMMENDED_def PENDING_def ONGOING_def FAILED_def
        SUCCEEDED_def DELETED_def CANCELLED_def)
  have e: "\<forall>wa v wa'. save env (wa\<lparr>this := setattr F_state v (this wa)\<rparr>) = (Inr (), wa') \<longrightarrow>
        (\<exists>uuid'. attrs (this wa) F_uuid = Some uuid' \<and>
           events_since wa wa'
             = [Ev_update_action_plan uuid' ((obj_get_changes (this wa))(F_state \<mapsto> v))])"
    by (auto simp add: save_run events_since_def obj_get_changes_setattr
        split: option.splits prod.splits sum.splits)
  from a b c e show ?thesis by blast
qed

theorem soft_delete_sets_DELETED_witness:
  "fst (soft_delete mem_env world0) = Inr () \<and>
   attrs (this world0) F_uuid = Some (StrV uuid1) \<and>
   attrs (this world0) F_state = Some (StrV ONGOING) \<and>
   save mem_env (world0\<lparr>this := setattr F_state (StrV ''BOGUS'') (this world0)\<rparr>)
     = (Inr (), snd (save mem_env world_bogus)) \<and>
   Ev_update_action_plan (StrV uuid1) [F_state \<mapsto> StrV DELETED]
     \<in> set (events_since world0 (snd (soft_delete mem_env world0))) \<and>
   attrs (this (snd (soft_delete mem_env world0))) F_state = Some (StrV DELETED) \<and>
   DELETED \<in> set State_values \<and>
   events_since world0 (snd (save mem_env world_bogus))
     = [Ev_update_action_plan (StrV uuid1) [F_state \<mapsto> StrV ''BOGUS'']]"
proof -
  have eq: "world0\<lparr>this := setattr F_state (StrV ''BOGUS'') (this world0)\<rparr> = world_bogus"
    by (simp add: world_bogus_def world0_def)
  have run: "soft_delete mem_env world0 = (Inr (), snd (soft_delete mem_env world0))"
    by (simp add: soft_delete_world0)
  have u: "attrs (this world0) F_uuid = Some (StrV uuid1)"
    by (simp add: world_defs row_of_def)
  have st: "attrs (this world0) F_state = Some (StrV ONGOING)"
    by (simp add: world_defs row_of_def)
  have ch: "obj_get_changes (this world0) = Map.empty"
    by (simp add: world_defs obj_get_changes_empty)
  have storage: "\<And>s db s' db' s''.
     update_action_plan mem_env (StrV uuid1)
        ((obj_get_changes (this world0))(F_state \<mapsto> StrV DELETED)) s = (Inr db, s')
     \<Longrightarrow> soft_delete_action_plan mem_env (db F_uuid) s' = (Inr db', s'')
     \<Longrightarrow> db' F_state = StrV DELETED"
  proof -
    fix s db s' db' s''
    assume "update_action_plan mem_env (StrV uuid1)
        ((obj_get_changes (this world0))(F_state \<mapsto> StrV DELETED)) s = (Inr db, s')"
      and "soft_delete_action_plan mem_env (db F_uuid) s' = (Inr db', s'')"
    then have "mem_update_action_plan (StrV uuid1) [F_state \<mapsto> StrV DELETED] s = (Inr db, s')"
      and "mem_soft_delete_action_plan (db F_uuid) s' = (Inr db', s'')"
      by (simp_all add: mem_env_def ch)
    from mem_update_then_soft_delete [OF this(1) _ this(2)]
    show "db' F_state = StrV DELETED" by simp
  qed
  have sav: "save mem_env (world0\<lparr>this := setattr F_state (StrV ''BOGUS'') (this world0)\<rparr>)
     = (Inr (), snd (save mem_env world_bogus))"
    unfolding eq by (simp add: save_bogus)
  have k: "Ev_update_action_plan (StrV uuid1)
        ((obj_get_changes (this world0))(F_state \<mapsto> StrV DELETED))
       \<in> set (events_since world0 (snd (soft_delete mem_env world0))) \<and>
     attrs (this (snd (soft_delete mem_env world0))) F_state = Some (StrV DELETED) \<and>
     DELETED \<in> set State_values \<and>
     (\<forall>wa v wa'. save mem_env (wa\<lparr>this := setattr F_state v (this wa)\<rparr>) = (Inr (), wa') \<longrightarrow>
        (\<exists>uuid'. attrs (this wa) F_uuid = Some uuid' \<and>
           events_since wa wa'
             = [Ev_update_action_plan uuid' ((obj_get_changes (this wa))(F_state \<mapsto> v))]))"
    using soft_delete_sets_DELETED
      [of mem_env world0 "snd (soft_delete mem_env world0)" "StrV uuid1"] run u storage
    by blast
  then have "\<exists>uuid'. attrs (this world0) F_uuid = Some uuid' \<and>
           events_since world0 (snd (save mem_env world_bogus))
             = [Ev_update_action_plan uuid'
                 ((obj_get_changes (this world0))(F_state \<mapsto> StrV ''BOGUS''))]"
    using sav by blast
  with u have "events_since world0 (snd (save mem_env world_bogus))
     = [Ev_update_action_plan (StrV uuid1) [F_state \<mapsto> StrV ''BOGUS'']]"
    by (simp add: ch)
  moreover have "fst (soft_delete mem_env world0) = Inr ()"
    by (simp add: soft_delete_world0)
  ultimately show ?thesis using k u st sav by (simp add: ch)
qed


text \<open>
  The claim as stated fails: a state that is none of the seven values is persisted.
\<close>

theorem persisted_state_counterexample:
  "fst (save mem_env world_bogus) = Inr () \<and>
   trace (snd (save mem_env world_bogus)) =
     [Ev_update_action_plan (StrV uuid1) [F_state \<mapsto> StrV ''BOGUS'']] \<and>
   map (\<lambda>p. map_of (snd p) F_state) (action_plans (store (snd (save mem_env world_bogus))))
     = [Some (StrV ''BOGUS'')] \<and>
   ''BOGUS'' \<notin> set State_values"
  by (simp add: save_bogus State_values_def RECOMMENDED_def PENDING_def ONGOING_def FAILED_def
        SUCCEEDED_def DELETED_def CANCELLED_def)

section \<open>create\<close>

lemma obj_get_changes_all: "changed ob = dom (attrs ob) \<Longrightarrow> obj_get_changes ob = attrs ob"
  by (auto simp add: obj_get_changes_def fun_eq_iff)

lemma foldl_setattr_changed:
  "changed ob = dom (attrs ob) \<Longrightarrow>
   changed (foldl (\<lambda>ob (f, v). setattr f v ob) ob kvs)
     = dom (attrs (foldl (\<lambda>ob (f, v). setattr f v ob) ob kvs))"
  by (induction kvs arbitrary: ob) (auto split: prod.splits)

lemma transient_changed: "changed (transient c kvs) = dom (attrs (transient c kvs))"
  unfolding transient_def by (rule foldl_setattr_changed) (simp add: new_obj_def)

lemma create_success:
  assumes "create env w = (Inr (), w')"
  shows "\<exists>db_action_plan s1 audit s2 strategy.
     create_action_plan env (obj_get_changes (this w)) (store w) = (Inr db_action_plan, s1) \<and>
     related_get env Audit (obj_context (this w)) (db_action_plan F_audit_id) s1
       = (Inr audit, s2) \<and>
     related_get env Strategy (obj_context (this w)) (db_action_plan F_strategy_id) s2
       = (Inr strategy, store w') \<and>
     trace w' = trace w @ [Ev_create_action_plan (obj_get_changes (this w)),
        Ev_related_get Audit (obj_context (this w)) (db_action_plan F_audit_id),
        Ev_related_get Strategy (obj_context (this w)) (db_action_plan F_strategy_id)] \<and>
     this w' = eager_row db_action_plan audit strategy (this w)"
  using assms
  by (auto simp add: create_run from_db_object_eager split: prod.splits sum.splits)

lemma eager_row_attrs:
  "attrs (eager_row r a st ob) f =
     (if f = F_audit then Some a else if f = F_strategy then Some st else Some (r f))"
  by (simp add: eager_row_def copy_row_def is_object_field_iff)

lemma get_by_uuid_lazy_unset:
  assumes "get_by_uuid env c u False w = (Inr ob, w')"
  shows "attrs ob F_audit = None \<and> attrs ob F_strategy = None"
  using assms
  by (auto simp add: get_by_uuid_lazy new_obj_def split: prod.splits sum.splits)

lemma create_world2:
  "create mem_env world2 =
     (Inr (),
      \<lparr>this = eager_row
          (row_of [(F_id, IntV 2), (F_uuid, StrV uuid2), (F_audit_id, IntV 7),
             (F_strategy_id, IntV 3), (F_first_action_id, NoneV), (F_state, StrV RECOMMENDED),
             (F_global_efficacy, NoneV)])
          (ObjV ''Audit'' [(''id'', IntV 7)]) (ObjV ''Strategy'' [(''id'', IntV 3)]) plan2,
       store = mem0\<lparr>action_plans := [(False, plan1_cols),
          (False, [(F_id, IntV 2), (F_uuid, StrV uuid2), (F_audit_id, IntV 7),
             (F_strategy_id, IntV 3), (F_first_action_id, NoneV), (F_state, StrV RECOMMENDED),
             (F_global_efficacy, NoneV)])]\<rparr>,
       trace = [Ev_create_action_plan (attrs plan2),
                Ev_related_get Audit ''ctx'' (IntV 7),
                Ev_related_get Strategy ''ctx'' (IntV 3)]\<rparr>)"
proof -
  have c: "obj_get_changes plan2 = attrs plan2"
    unfolding plan2_def by (rule obj_get_changes_all) (rule transient_changed)
  have a: "attrs plan2 = [F_uuid \<mapsto> StrV uuid2, F_audit_id \<mapsto> IntV 7,
      F_strategy_id \<mapsto> IntV 3, F_state \<mapsto> StrV RECOMMENDED]"
    by (simp add: plan2_def transient_def new_obj_def)
  have x: "obj_context plan2 = ''ctx''"
    by (simp add: plan2_def transient_def new_obj_def)
  show ?thesis
    by (simp add: create_run from_db_object_eager world2_def c x a mem_defs mem0_def
        plan1_cols_def uuid1_def uuid2_def)
qed


text \<open>
  C5. A \<open>create()\<close> that returns has sent the storage the mapping \<open>obj_get_changes\<close>
  gives, which for a transient object is every field set so far, and has then hydrated
  the object eagerly from the row created: one fetch of the Audit and one of the Strategy
  by the foreign keys of the row, whose results are the \<open>audit\<close> and \<open>strategy\<close> fields of
  the object, every other field being the column of the row, and the change set empty. A
  lookup with \<open>eager\<close> false, the default, leaves both relationship fields unset.
\<close>

theorem create_persists_and_loads_eagerly:
  assumes created: "create env w = (Inr (), w')"
  and looked_up: "get_by_uuid env c u False wl = (Inr ob, wl')"
  shows "(\<exists>db_action_plan s1 audit s2 strategy.
     create_action_plan env (obj_get_changes (this w)) (store w) = (Inr db_action_plan, s1) \<and>
     related_get env Audit (obj_context (this w)) (db_action_plan F_audit_id) s1
       = (Inr audit, s2) \<and>
     related_get env Strategy (obj_context (this w)) (db_action_plan F_strategy_id) s2
       = (Inr strategy, store w') \<and>
     trace w' = trace w @ [Ev_create_action_plan (obj_get_changes (this w)),
        Ev_related_get Audit (obj_context (this w)) (db_action_plan F_audit_id),
        Ev_related_get Strategy (obj_context (this w)) (db_action_plan F_strategy_id)] \<and>
     attrs (this w') F_audit = Some audit \<and>
     attrs (this w') F_strategy = Some strategy \<and>
     (\<forall>f. \<not> is_object_field f \<longrightarrow> attrs (this w') f = Some (db_action_plan f)) \<and>
     changed (this w') = {}) \<and>
     obj_get_changes (transient c' kvs) = attrs (transient c' kvs) \<and>
     attrs ob F_audit = None \<and> attrs ob F_strategy = None"
proof -
  from create_success [OF created] obtain db s1 a s2 st where
    f: "create_action_plan env (obj_get_changes (this w)) (store w) = (Inr db, s1)"
       "related_get env Audit (obj_context (this w)) (db F_audit_id) s1 = (Inr a, s2)"
       "related_get env Strategy (obj_context (this w)) (db F_strategy_id) s2 = (Inr st, store w')"
       "trace w' = trace w @ [Ev_create_action_plan (obj_get_changes (this w)),
          Ev_related_get Audit (obj_context (this w)) (db F_audit_id),
          Ev_related_get Strategy (obj_context (this w)) (db F_strategy_id)]" and
    t: "this w' = eager_row db a st (this w)"
    by blast
  from t have g: "attrs (this w') F_audit = Some a" "attrs (this w') F_strategy = Some st"
      "\<forall>f. \<not> is_object_field f \<longrightarrow> attrs (this w') f = Some (db f)"
      "changed (this w') = {}"
    by (simp_all add: eager_row_attrs is_object_field_iff) (simp add: eager_row_def)
  have h: "obj_get_changes (transient c' kvs) = attrs (transient c' kvs)"
    by (rule obj_get_changes_all) (rule transient_changed)
  from f g h get_by_uuid_lazy_unset [OF looked_up] show ?thesis by blast
qed

theorem create_persists_and_loads_eagerly_witness:
  "fst (create mem_env world2) = Inr () \<and>
   get_by_uuid mem_env ''ctx'' (StrV uuid1) False world0 =
     (Inr plan1, world0\<lparr>trace := [Ev_get_action_plan_by_uuid ''ctx'' (StrV uuid1) False]\<rparr>) \<and>
   trace (snd (create mem_env world2)) =
     [Ev_create_action_plan (attrs plan2), Ev_related_get Audit ''ctx'' (IntV 7),
      Ev_related_get Strategy ''ctx'' (IntV 3)] \<and>
   attrs (this (snd (create mem_env world2))) F_audit = Some (ObjV ''Audit'' [(''id'', IntV 7)]) \<and>
   attrs (this (snd (create mem_env world2))) F_strategy
     = Some (ObjV ''Strategy'' [(''id'', IntV 3)]) \<and>
   attrs (this (snd (create mem_env world2))) F_id = Some (IntV 2) \<and>
   obj_get_changes plan2 = attrs plan2 \<and>
   attrs plan1 F_audit = None \<and> attrs plan1 F_strategy = None"
proof -
  have run: "create mem_env world2 = (Inr (), snd (create mem_env world2))"
    by (simp add: create_world2)
  from create_persists_and_loads_eagerly [OF run hydrate_plan1,
      of "''ctx''" "[(F_uuid, StrV uuid2), (F_audit_id, IntV 7), (F_strategy_id, IntV 3),
        (F_state, StrV RECOMMENDED)]"]
  have "obj_get_changes plan2 = attrs plan2 \<and> attrs plan1 F_audit = None \<and>
      attrs plan1 F_strategy = None"
    unfolding plan2_def by blast
  then show ?thesis
    by (simp add: create_world2 hydrate_plan1 eager_row_attrs row_of_def)
qed

section \<open>Saving without a change\<close>

text \<open>
  C8. Let the change set of a plan be empty, its uuid be set, and the storage answer an
  update of that uuid with no column by the row of that uuid, leaving the store as it is.
  Then \<open>save()\<close> returns, and a second \<open>save()\<close> right after it returns too; each makes
  one call of the storage, an update with the empty delta; the store is the same after
  both, and the second leaves the object as the first left it.
\<close>

theorem save_twice_noop:
  assumes clean: "obj_get_changes (this w) = Map.empty"
  and persisted: "attrs (this w) F_uuid = Some uuid"
  and storage: "update_action_plan env uuid Map.empty (store w) = (Inr db_obj, store w)"
  and same_row: "db_obj F_uuid = uuid"
  shows "\<exists>w1 w2. save env w = (Inr (), w1) \<and> save env w1 = (Inr (), w2) \<and>
     store w1 = store w \<and> store w2 = store w \<and>
     trace w2 = trace w @ [Ev_update_action_plan uuid Map.empty,
                           Ev_update_action_plan uuid Map.empty] \<and>
     this w2 = this w1 \<and> obj_get_changes (this w2) = Map.empty"
proof -
  let ?o = "obj_reset_changes (copy_row db_obj (this w))"
  let ?w1 = "\<lparr>this = ?o, store = store w, trace = trace w @ [Ev_update_action_plan uuid Map.empty]\<rparr>"
  let ?w2 = "\<lparr>this = ?o, store = store w,
     trace = trace w @ [Ev_update_action_plan uuid Map.empty, Ev_update_action_plan uuid Map.empty]\<rparr>"
  have first: "save env w = (Inr (), ?w1)"
    by (simp add: save_run clean persisted storage)
  have c1: "obj_get_changes ?o = Map.empty"
    by (simp add: obj_get_changes_empty)
  have again: "obj_reset_changes (copy_row db_obj ?o) = ?o"
    by (rule obj.equality) (auto simp add: copy_row_def fun_eq_iff)
  have second: "save env ?w1 = (Inr (), ?w2)"
    by (simp add: save_run c1 same_row storage again)
  from first second c1 show ?thesis
    by (intro exI [of _ ?w1] exI [of _ ?w2]) simp
qed

theorem save_twice_noop_witness:
  "obj_get_changes (this world0) = Map.empty \<and>
   attrs (this world0) F_uuid = Some (StrV uuid1) \<and>
   update_action_plan mem_env (StrV uuid1) Map.empty (store world0)
     = (Inr (row_of plan1_cols), store world0) \<and>
   fst (save mem_env world0) = Inr () \<and>
   fst (save mem_env (snd (save mem_env world0))) = Inr () \<and>
   store (snd (save mem_env (snd (save mem_env world0)))) = mem0 \<and>
   trace (snd (save mem_env (snd (save mem_env world0)))) =
     [Ev_update_action_plan (StrV uuid1) Map.empty, Ev_update_action_plan (StrV uuid1) Map.empty]"
proof -
  have a: "obj_get_changes (this world0) = Map.empty"
    by (simp add: world_defs obj_get_changes_empty)
  have b: "attrs (this world0) F_uuid = Some (StrV uuid1)"
    by (simp add: world_defs row_of_def)
  have c: "update_action_plan mem_env (StrV uuid1) Map.empty (store world0)
     = (Inr (row_of plan1_cols), store world0)"
    by (simp add: mem_env_def mem_update_action_plan_def live_def world0_def mem0_def
        plan1_cols_def uuid1_def Let_def nonobject_fields row_of_def)
  have d: "row_of plan1_cols F_uuid = StrV uuid1"
    by (simp add: row_of_def plan1_cols_def)
  have t: "trace world0 = []" "store world0 = mem0"
    by (simp_all add: world0_def)
  from save_twice_noop [OF a b c d] obtain w1 w2 where
    "save mem_env world0 = (Inr (), w1)" "save mem_env w1 = (Inr (), w2)"
    "store w2 = store world0"
    "trace w2 = trace world0 @ [Ev_update_action_plan (StrV uuid1) Map.empty,
        Ev_update_action_plan (StrV uuid1) Map.empty]"
    by blast
  with a b c t show ?thesis by simp
qed

section \<open>Round trip\<close>

lemma new_obj_simps [simp]:
  "obj_context (new_obj c) = c"
  "attrs (new_obj c) = Map.empty"
  "changed (new_obj c) = {}"
  by (simp_all add: new_obj_def)








section \<open>get\<close>

lemma from_db_object_trace:
  "\<exists>rest. trace (snd (from_db_object env r e w)) = trace w @ rest"
proof (cases e)
  case True
  then show ?thesis
    by (auto simp add: from_db_object_eager split: prod.splits sum.splits)
next
  case False
  then show ?thesis
    by (simp add: from_db_object_lazy)
qed

lemma get_by_id_trace:
  "\<exists>rest. trace (snd (get_by_id env c k e w))
     = trace w @ Ev_get_action_plan_by_id c k e # rest"
proof (cases "get_action_plan_by_id env c k e (store w)")
  case (Pair res s1)
  show ?thesis
  proof (cases res)
    case (Inl err)
    with Pair show ?thesis
      by (simp add: get_by_id_def bnd_def call_def)
  next
    case (Inr db)
    let ?w1 = "w\<lparr>store := s1, trace := trace w @ [Ev_get_action_plan_by_id c k e],
      this := new_obj c\<rparr>"
    from from_db_object_trace [of env db e ?w1] obtain rest where
      "trace (snd (from_db_object env db e ?w1)) = trace ?w1 @ rest"
      by blast
    with Pair Inr show ?thesis
      by (auto simp add: get_by_id_def bnd_def call_def on_obj_def split: prod.splits)
  qed
qed

lemma get_by_uuid_trace:
  "\<exists>rest. trace (snd (get_by_uuid env c k e w))
     = trace w @ Ev_get_action_plan_by_uuid c k e # rest"
proof (cases "get_action_plan_by_uuid env c k e (store w)")
  case (Pair res s1)
  show ?thesis
  proof (cases res)
    case (Inl err)
    with Pair show ?thesis
      by (simp add: get_by_uuid_def bnd_def call_def)
  next
    case (Inr db)
    let ?w1 = "w\<lparr>store := s1, trace := trace w @ [Ev_get_action_plan_by_uuid c k e],
      this := new_obj c\<rparr>"
    from from_db_object_trace [of env db e ?w1] obtain rest where
      "trace (snd (from_db_object env db e ?w1)) = trace ?w1 @ rest"
      by blast
    with Pair Inr show ?thesis
      by (auto simp add: get_by_uuid_def bnd_def call_def on_obj_def split: prod.splits)
  qed
qed

lemma classify_keys:
  "is_int_like mem_env (StrV ''1'')"
  "\<not> is_int_like mem_env (StrV uuid1)"
  "is_uuid_like mem_env (StrV uuid1)"
  "\<not> is_int_like mem_env (StrV ''plan-1'')"
  "\<not> is_uuid_like mem_env (StrV ''plan-1'')"
  "is_int_like mem_env key32"
  "is_uuid_like mem_env key32"
  by (simp_all add: mem_env_def canonical_numeral_def is_digit_def is_hex_def uuid1_def key32_def)

lemma get_by_id_1:
  "get_by_id mem_env ''ctx'' (StrV ''1'') False world0 =
     (Inr plan1, world0\<lparr>trace := [Ev_get_action_plan_by_id ''ctx'' (StrV ''1'') False]\<rparr>)"
  by (simp add: get_by_id_def bnd_def call_def on_obj_lazy mem_defs world_defs
      canonical_numeral_def is_digit_def numeral_of_def digit_of_def)

text \<open>
  C3, as amended. For every key: if the key is integer-like, \<open>get\<close> is \<open>get_by_id\<close> on
  that key, and its first call is the lookup by id of the storage; if the key is not
  integer-like and is UUID-like, \<open>get\<close> is \<open>get_by_uuid\<close> on that key, and its first call
  is the lookup by uuid; if it is neither, \<open>get\<close> raises \<open>InvalidIdentity\<close> with the key
  and calls nothing. The two tests are parameters: this holds whatever they are.
\<close>

theorem get_dispatch:
  "(is_int_like env k \<longrightarrow>
      get env c k e w = get_by_id env c k e w \<and>
      (\<exists>rest. trace (snd (get env c k e w)) = trace w @ Ev_get_action_plan_by_id c k e # rest)) \<and>
   (\<not> is_int_like env k \<and> is_uuid_like env k \<longrightarrow>
      get env c k e w = get_by_uuid env c k e w \<and>
      (\<exists>rest. trace (snd (get env c k e w)) = trace w @ Ev_get_action_plan_by_uuid c k e # rest)) \<and>
   (\<not> is_int_like env k \<and> \<not> is_uuid_like env k \<longrightarrow>
      get env c k e w = (Inl (InvalidIdentity k), w))"
  using get_by_id_trace [of env c k e w] get_by_uuid_trace [of env c k e w]
  by (simp add: get_def raise_def)

theorem get_dispatch_witness:
  "is_int_like mem_env (StrV ''1'') \<and>
   get mem_env ''ctx'' (StrV ''1'') False world0 =
     (Inr plan1, world0\<lparr>trace := [Ev_get_action_plan_by_id ''ctx'' (StrV ''1'') False]\<rparr>) \<and>
   \<not> is_int_like mem_env (StrV uuid1) \<and> is_uuid_like mem_env (StrV uuid1) \<and>
   get mem_env ''ctx'' (StrV uuid1) False world0 =
     (Inr plan1, world0\<lparr>trace := [Ev_get_action_plan_by_uuid ''ctx'' (StrV uuid1) False]\<rparr>) \<and>
   \<not> is_int_like mem_env (StrV ''plan-1'') \<and> \<not> is_uuid_like mem_env (StrV ''plan-1'') \<and>
   get mem_env ''ctx'' (StrV ''plan-1'') False world0
     = (Inl (InvalidIdentity (StrV ''plan-1'')), world0)"
  using get_dispatch [of mem_env "StrV ''1''" "''ctx''" False world0]
    get_dispatch [of mem_env "StrV uuid1" "''ctx''" False world0]
    get_dispatch [of mem_env "StrV ''plan-1''" "''ctx''" False world0]
    classify_keys get_by_id_1 hydrate_plan1
  by simp

text \<open>
  The claim as stated fails for a key that passes both tests, since the integer test comes
  first: the key of 32 decimal digits is UUID-like and is looked up by id.
\<close>

theorem get_uuid_like_counterexample:
  "is_int_like mem_env key32 \<and> is_uuid_like mem_env key32 \<and>
   get mem_env ''ctx'' key32 False world0 =
     (Inl NotFound, world0\<lparr>trace := [Ev_get_action_plan_by_id ''ctx'' key32 False]\<rparr>) \<and>
   get_by_uuid mem_env ''ctx'' key32 False world0 =
     (Inl NotFound, world0\<lparr>trace := [Ev_get_action_plan_by_uuid ''ctx'' key32 False]\<rparr>) \<and>
   get mem_env ''ctx'' key32 False world0 \<noteq> get_by_uuid mem_env ''ctx'' key32 False world0"
proof -
  have a: "get_by_id mem_env ''ctx'' key32 False world0 =
     (Inl NotFound, world0\<lparr>trace := [Ev_get_action_plan_by_id ''ctx'' key32 False]\<rparr>)"
    by (simp add: get_by_id_def bnd_def call_def mem_defs world_defs key32_def
      canonical_numeral_def is_digit_def numeral_of_def digit_of_def)
  have b: "get_by_uuid mem_env ''ctx'' key32 False world0 =
     (Inl NotFound, world0\<lparr>trace := [Ev_get_action_plan_by_uuid ''ctx'' key32 False]\<rparr>)"
    by (simp add: get_by_uuid_lazy mem_defs world_defs key32_def)
  have c: "get mem_env ''ctx'' key32 False world0 = get_by_id mem_env ''ctx'' key32 False world0"
    by (simp add: get_def classify_keys)
  have d: "world0\<lparr>trace := [Ev_get_action_plan_by_id ''ctx'' key32 False]\<rparr>
      \<noteq> world0\<lparr>trace := [Ev_get_action_plan_by_uuid ''ctx'' key32 False]\<rparr>"
    by (simp add: world0_def)
  from a b c d classify_keys show ?thesis by simp
qed

end
